theory Spec2Isabelle
  imports Complex_Main "HOL-Library.Multiset"
begin

section \<open>Strings as the program sees them\<close>

text \<open>
  A JavaScript string is a sequence of UTF-16 code units. The model is a \<^typ>\<open>char list\<close>
  whose characters are the code units below 256 (the Latin-1 range); the character classes
  and case mappings below are the ECMAScript ones restricted to that range.
\<close>

definition code :: "char \<Rightarrow> nat" where
  "code c = of_char c"

text \<open>\<open>\s\<close>, and what \<open>trim()\<close> strips: TAB, LF, VT, FF, CR, SPACE, NBSP.\<close>

definition isSpace :: "char \<Rightarrow> bool" where
  "isSpace c = (code c = 9 \<or> code c = 10 \<or> code c = 11 \<or> code c = 12 \<or> code c = 13
                \<or> code c = 32 \<or> code c = 160)"

text \<open>\<open>[a-z]\<close>\<close>

definition isLowerAZ :: "char \<Rightarrow> bool" where
  "isLowerAZ c = (97 \<le> code c \<and> code c \<le> 122)"

text \<open>\<open>\d\<close>\<close>

definition isDigit :: "char \<Rightarrow> bool" where
  "isDigit c = (48 \<le> code c \<and> code c \<le> 57)"

text \<open>\<open>\w\<close>\<close>

definition isWordChar :: "char \<Rightarrow> bool" where
  "isWordChar c = (isLowerAZ c \<or> (65 \<le> code c \<and> code c \<le> 90) \<or> isDigit c \<or> code c = 95)"

text \<open>The line terminators, which \<open>.\<close> does not match without the \<open>s\<close> flag.\<close>

definition isLineTerminator :: "char \<Rightarrow> bool" where
  "isLineTerminator c = (code c = 10 \<or> code c = 13)"

text \<open>
  Upper-casing of one code unit, as the case-insensitive matcher canonicalises it: the
  letters a-z and the accented lower-case letters of Latin-1 move down by 32; a character
  whose upper case is not a single Latin-1 code unit stays as it is.
\<close>

definition toUpperCaseChar :: "char \<Rightarrow> char" where
  "toUpperCaseChar c =
     (if isLowerAZ c \<or> (224 \<le> code c \<and> code c \<le> 254 \<and> code c \<noteq> 247)
      then char_of (code c - 32) else c)"

definition toLowerCaseChar :: "char \<Rightarrow> char" where
  "toLowerCaseChar c =
     (if (65 \<le> code c \<and> code c \<le> 90) \<or> (192 \<le> code c \<and> code c \<le> 222 \<and> code c \<noteq> 215)
      then char_of (code c + 32) else c)"

definition toLowerCase :: "string \<Rightarrow> string" where
  "toLowerCase s = map toLowerCaseChar s"

definition toUpperCase :: "string \<Rightarrow> string" where
  "toUpperCase s = map toUpperCaseChar s"

definition trim :: "string \<Rightarrow> string" where
  "trim s = rev (dropWhile isSpace (rev (dropWhile isSpace s)))"

definition substring :: "string \<Rightarrow> nat \<Rightarrow> nat \<Rightarrow> string" where
  "substring s i j = take (j - i) (drop i s)"

text \<open>\<open>s.split(sep)\<close> for a one-character separator: the empty string gives \<open>['']\<close>.\<close>

fun splitOn :: "char \<Rightarrow> string \<Rightarrow> string list" where
  "splitOn sep [] = [[]]"
| "splitOn sep (c # cs) =
     (if c = sep then [] # splitOn sep cs
      else (case splitOn sep cs of [] \<Rightarrow> [[c]] | w # ws \<Rightarrow> (c # w) # ws))"

text \<open>\<open>s.split(/\s+/)\<close>: the pieces between the maximal runs of white space.\<close>

function splitWhitespace :: "string \<Rightarrow> string list" where
  "splitWhitespace [] = [[]]"
| "splitWhitespace (c # cs) =
     (if isSpace c then [] # splitWhitespace (dropWhile isSpace cs)
      else (case splitWhitespace cs of [] \<Rightarrow> [[c]] | w # ws \<Rightarrow> (c # w) # ws))"
  by pat_completeness auto
termination
  by (relation "measure length") (auto simp: less_Suc_eq_le length_dropWhile_le)

text \<open>\<open>words.join(sep)\<close>\<close>

fun joinWith :: "string \<Rightarrow> string list \<Rightarrow> string" where
  "joinWith sep [] = []"
| "joinWith sep [w] = w"
| "joinWith sep (w # v # ws) = w @ sep @ joinWith sep (v # ws)"

text \<open>\<open>s.includes(sub)\<close>\<close>

fun includesStr :: "string \<Rightarrow> string \<Rightarrow> bool" where
  "includesStr [] sub = (sub = [])"
| "includesStr (c # cs) sub = (take (length sub) (c # cs) = sub \<or> includesStr cs sub)"

text \<open>A non-negative integer converted to a string, in decimal.\<close>

fun decimal :: "nat \<Rightarrow> string" where
  "decimal n = (if n < 10 then [char_of (48 + n)]
                else decimal (n div 10) @ [char_of (48 + n mod 10)])"

declare decimal.simps [simp del]

section \<open>Numbers\<close>

text \<open>
  A JavaScript number is a binary64 floating-point number. A finite number is modelled by
  its value, a rational, and an arithmetic operation by the exact operation followed by
  \<open>round64\<close>, the rounding to the nearest binary64 value with ties going to the even
  significand: 53 bits of significand, the smallest exponent -1022 (below it the values are
  the multiples of 2^-1074). A decimal literal of the source is the rounding of the rational
  it writes, so \<open>0.2\<close> is \<open>round64 (2 / 10)\<close>. The infinities and \<open>NaN\<close> are not values of the
  model; the program reaches them only through a result at or above 2^1024 - 2^970.
  Counters and lengths are natural numbers; below 2^53 they are binary64 values.
\<close>

text \<open>The number of binary digits of a positive integer.\<close>

function bitLength :: "int \<Rightarrow> int" where
  "bitLength n = (if n \<le> 0 then 0 else 1 + bitLength (n div 2))"
  by pat_completeness auto
termination
  by (relation "measure nat") auto

declare bitLength.simps [simp del]

definition pow2 :: "int \<Rightarrow> rat" where
  "pow2 k = (if 0 \<le> k then 2 ^ nat k else 1 / 2 ^ nat (- k))"

text \<open>
  The binary exponent of a positive rational \<open>x\<close>, the \<open>e\<close> with 2^e \<le> x < 2^(e+1): the
  difference of the bit lengths of numerator and denominator, or one less.
\<close>

definition exponent :: "rat \<Rightarrow> int" where
  "exponent x =
     (let d = bitLength (fst (quotient_of x)) - bitLength (snd (quotient_of x))
      in if pow2 d \<le> x then d else d - 1)"

text \<open>The nearest integer, a tie going to the even one.\<close>

definition roundHalfEven :: "rat \<Rightarrow> int" where
  "roundHalfEven m =
     (let f = \<lfloor>m\<rfloor>
      in if m - of_int f < 1 / 2 then f
         else if 1 / 2 < m - of_int f then f + 1
         else if even f then f else f + 1)"

text \<open>The nearest binary64 value: a multiple of 2^(e-52), for the exponent \<open>e\<close> of the argument.\<close>

definition round64 :: "rat \<Rightarrow> rat" where
  "round64 x =
     (if x = 0 then 0
      else let q = pow2 (max (exponent \<bar>x\<bar>) (- 1022) - 52)
           in of_int (roundHalfEven (x / q)) * q)"

text \<open>\<open>a + b\<close>, \<open>a - b\<close> and \<open>a * b\<close> on numbers.\<close>

definition fadd :: "rat \<Rightarrow> rat \<Rightarrow> rat" where
  "fadd a b = round64 (a + b)"

definition fsub :: "rat \<Rightarrow> rat \<Rightarrow> rat" where
  "fsub a b = round64 (a - b)"

definition fmul :: "rat \<Rightarrow> rat \<Rightarrow> rat" where
  "fmul a b = round64 (a * b)"

section \<open>Regular expressions\<close>

text \<open>
  The patterns of the program, as syntax trees. \<open>Cls neg P\<close> is a character class with
  members \<open>P\<close>, inverted when \<open>neg\<close>; \<open>Bol\<close> is \<open>^\<close>; \<open>WordB\<close> is \<open>\b\<close>;
  \<open>Star greedy r\<close> is \<open>r*\<close> or \<open>r*?\<close>; \<open>Group n r\<close> is the n-th capturing pair of
  parentheses. These are the constructs of the patterns that the program itself contains;
  a pattern of a rule is any tree of them (look-ahead, back-references inside a pattern
  and named groups are not covered).
\<close>

datatype regex =
    Eps
  | Cls bool "char \<Rightarrow> bool"
  | Bol
  | WordB
  | Seq regex regex
  | Alt regex regex
  | Star bool regex
  | Group nat regex

text \<open>Captures: the group number with the text it last matched; the head is the newest.\<close>

type_synonym caps = "(nat \<times> string) list"

text \<open>A match: where it starts, where it ends, and its captures.\<close>

type_synonym rmatch = "nat \<times> nat \<times> caps"

fun groupsOf :: "regex \<Rightarrow> nat list" where
  "groupsOf (Seq a b) = groupsOf a @ groupsOf b"
| "groupsOf (Alt a b) = groupsOf a @ groupsOf b"
| "groupsOf (Star g a) = groupsOf a"
| "groupsOf (Group n a) = n # groupsOf a"
| "groupsOf r = []"

text \<open>
  Membership of a character in a class. Under the \<open>i\<close> flag a character is in the class when
  some member has the same canonical (upper-case) form.
\<close>

definition classHas :: "bool \<Rightarrow> bool \<Rightarrow> (char \<Rightarrow> bool) \<Rightarrow> char \<Rightarrow> bool" where
  "classHas ic neg P c =
     ((if ic then P (toUpperCaseChar c) \<or> P (toLowerCaseChar (toUpperCaseChar c)) else P c) \<noteq> neg)"

text \<open>
  The backtracking matcher, as the list of its successes in the order in which backtracking
  finds them: \<open>ms ic s r i c\<close> are the ways in which \<open>r\<close> matches \<open>s\<close> from position \<open>i\<close>
  with captures \<open>c\<close>, each an end position with the captures then. The head of the list is
  the match the engine reports. A greedy star tries another round first, a lazy one last; a
  round that consumes nothing is rejected, and every round starts with the captures of the
  groups inside it cleared.
\<close>

function ms :: "bool \<Rightarrow> string \<Rightarrow> regex \<Rightarrow> nat \<Rightarrow> caps \<Rightarrow> (nat \<times> caps) list" where
  "ms ic s Eps i c = [(i, c)]"
| "ms ic s (Cls neg P) i c =
     (if i < length s \<and> classHas ic neg P (s ! i) then [(Suc i, c)] else [])"
| "ms ic s Bol i c = (if i = 0 then [(i, c)] else [])"
| "ms ic s WordB i c =
     (if (0 < i \<and> isWordChar (s ! (i - 1))) \<noteq> (i < length s \<and> isWordChar (s ! i))
      then [(i, c)] else [])"
| "ms ic s (Seq a b) i c = concat (map (\<lambda>(j, c'). ms ic s b j c') (ms ic s a i c))"
| "ms ic s (Alt a b) i c = ms ic s a i c @ ms ic s b i c"
| "ms ic s (Group n a) i c =
     map (\<lambda>(j, c'). (j, (n, substring s i j) # c')) (ms ic s a i c)"
| ms_Star: "ms ic s (Star g a) i c =
     (let more = concat (map (\<lambda>(j, c'). if i < j \<and> j \<le> length s
                                         then ms ic s (Star g a) j c' else [])
                   (ms ic s a i (filter (\<lambda>(k, v). k \<notin> set (groupsOf a)) c)))
      in if g then more @ [(i, c)] else (i, c) # more)"
  by pat_completeness auto
termination
  by (relation "inv_image (less_than <*lex*> less_than)
        (\<lambda>(ic, s, r, i, c). (size r, length s - i))") auto

declare ms_Star [simp del]

text \<open>One attempt at position \<open>i\<close>.\<close>

definition exec :: "bool \<Rightarrow> regex \<Rightarrow> string \<Rightarrow> nat \<Rightarrow> (nat \<times> caps) option" where
  "exec ic r s i = (case ms ic s r i [] of [] \<Rightarrow> None | x # xs \<Rightarrow> Some x)"

text \<open>The first match at or after \<open>i\<close>: what a pattern without the \<open>g\<close> flag finds.\<close>

function search :: "bool \<Rightarrow> regex \<Rightarrow> string \<Rightarrow> nat \<Rightarrow> rmatch option" where
  "search ic r s i =
     (if length s < i then None
      else (case exec ic r s i of
              Some (j, c) \<Rightarrow> Some (i, j, c)
            | None \<Rightarrow> search ic r s (Suc i)))"
  by pat_completeness auto
termination
  by (relation "measure (\<lambda>(ic, r, s, i). Suc (length s) - i)") auto

text \<open>
  All matches of a pattern with the \<open>g\<close> flag, left to right and not overlapping: after
  a match the scan goes on where it ended, one further after an empty match.
\<close>

function scan :: "bool \<Rightarrow> regex \<Rightarrow> string \<Rightarrow> nat \<Rightarrow> rmatch list" where
  "scan ic r s i =
     (if length s < i then []
      else (case exec ic r s i of
              None \<Rightarrow> scan ic r s (Suc i)
            | Some (j, c) \<Rightarrow> (i, j, c) # scan ic r s (if i < j then j else Suc i)))"
  by pat_completeness auto
termination
  by (relation "measure (\<lambda>(ic, r, s, i). Suc (length s) - i)") auto

declare search.simps [simp del] scan.simps [simp del]

text \<open>The text rebuilt from position \<open>p\<close>, each match replaced by the string paired with it.\<close>

fun splice :: "string \<Rightarrow> nat \<Rightarrow> (rmatch \<times> string) list \<Rightarrow> string" where
  "splice s p [] = drop p s"
| "splice s p (((a, b, c), rep) # rest) = substring s p a @ rep @ splice s b rest"

text \<open>\<open>s.replace(/r/g, f)\<close> and \<open>s.replace(/r/, f)\<close> for a replacer function \<open>f\<close>.\<close>

definition replaceAllFn :: "bool \<Rightarrow> regex \<Rightarrow> string \<Rightarrow> (rmatch \<Rightarrow> string) \<Rightarrow> string" where
  "replaceAllFn ic r s f = splice s 0 (map (\<lambda>m. (m, f m)) (scan ic r s 0))"

definition replaceFirstFn :: "bool \<Rightarrow> regex \<Rightarrow> string \<Rightarrow> (rmatch \<Rightarrow> string) \<Rightarrow> string" where
  "replaceFirstFn ic r s f =
     (case search ic r s 0 of None \<Rightarrow> s | Some m \<Rightarrow> splice s 0 [(m, f m)])"

text \<open>\<open>s.match(/r/g)\<close>: the matched substrings; the empty list stands for \<open>null\<close>.\<close>

definition matchStrings :: "regex \<Rightarrow> string \<Rightarrow> string list" where
  "matchStrings r s = map (\<lambda>(a, b, c). substring s a b) (scan False r s 0)"

definition digitValue :: "char \<Rightarrow> nat" where
  "digitValue c = code c - 48"

definition captureText :: "caps \<Rightarrow> nat \<Rightarrow> string" where
  "captureText c k = (case map_of c k of None \<Rightarrow> [] | Some v \<Rightarrow> v)"

text \<open>
  A replacement string expanded for one match, for a pattern with \<open>m\<close> groups:
  \<open>$$\<close>, \<open>$&\<close>, \<open>$`\<close>, \<open>$'\<close>, \<open>$n\<close> and \<open>$nn\<close>. A two-digit reference beyond the
  number of groups is a one-digit reference and a digit; a reference to no group is left
  as it is written; a group that did not take part gives the empty string.
\<close>

fun getSubstitution :: "nat \<Rightarrow> string \<Rightarrow> rmatch \<Rightarrow> string \<Rightarrow> string" where
  "getSubstitution m s mt [] = []"
| "getSubstitution m s mt [x] = [x]"
| "getSubstitution m s mt (x # y # rest) =
     (if x \<noteq> CHR ''$'' then x # getSubstitution m s mt (y # rest)
      else if y = CHR ''$'' then CHR ''$'' # getSubstitution m s mt rest
      else if y = CHR ''&'' then substring s (fst mt) (fst (snd mt)) @ getSubstitution m s mt rest
      else if y = CHR 0x60 then take (fst mt) s @ getSubstitution m s mt rest
      else if y = CHR 0x27 then drop (fst (snd mt)) s @ getSubstitution m s mt rest
      else if isDigit y then
        (case rest of
           z # rest' \<Rightarrow>
             if isDigit z \<and> digitValue y * 10 + digitValue z \<le> m then
               (if 1 \<le> digitValue y * 10 + digitValue z
                then captureText (snd (snd mt)) (digitValue y * 10 + digitValue z)
                       @ getSubstitution m s mt rest'
                else x # y # z # getSubstitution m s mt rest')
             else if 1 \<le> digitValue y \<and> digitValue y \<le> m
               then captureText (snd (snd mt)) (digitValue y) @ getSubstitution m s mt rest
               else x # y # getSubstitution m s mt rest
         | [] \<Rightarrow>
             if 1 \<le> digitValue y \<and> digitValue y \<le> m
             then captureText (snd (snd mt)) (digitValue y)
             else [x, y])
      else x # getSubstitution m s mt (y # rest))"

text \<open>\<open>s.replace(/r/g, template)\<close> for a replacement string.\<close>

definition replaceAllStr :: "bool \<Rightarrow> regex \<Rightarrow> string \<Rightarrow> string \<Rightarrow> string" where
  "replaceAllStr ic r s template =
     replaceAllFn ic r s (\<lambda>mt. getSubstitution (length (groupsOf r)) s mt template)"

text \<open>Building blocks of the patterns: a literal, \<open>r+\<close>, \<open>r+?\<close>, \<open>r?\<close> for an \<open>r\<close>
  that has no group inside and matches one character or more.\<close>

definition chrR :: "char \<Rightarrow> regex" where
  "chrR x = Cls False (\<lambda>c. c = x)"

fun litR :: "string \<Rightarrow> regex" where
  "litR [] = Eps"
| "litR [x] = chrR x"
| "litR (x # y # xs) = Seq (chrR x) (litR (y # xs))"

definition plusR :: "bool \<Rightarrow> regex \<Rightarrow> regex" where
  "plusR g r = Seq r (Star g r)"

definition optR :: "regex \<Rightarrow> regex" where
  "optR r = Alt r Eps"

definition anyChar :: regex where
  "anyChar = Cls False (\<lambda>c. True)"

definition dotR :: regex where
  "dotR = Cls True isLineTerminator"

definition spaceCls :: regex where
  "spaceCls = Cls False isSpace"

section \<open>The Static Fixer (static-fixer.js)\<close>

text \<open>
  A rule of the rule file. \<open>findRegex\<close> is the pattern that \<open>new RegExp(rule.findRegex, 'gi')\<close>
  compiles, \<open>None\<close> when the constructor throws. The fields \<open>id\<close>, \<open>scriptName\<close> and
  \<open>category\<close> play no part in the replacement and are left out.
\<close>

record rule =
  findRegex :: "regex option"
  replaceString :: string
  disabled :: bool
  isStatic :: bool

record staticFixer =
  rules :: "rule list"
  fixerEnabled :: bool

text \<open>\<open>/\{\{random:([\s\S]+?)\}\}/\<close>\<close>

definition randomSyntax :: regex where
  "randomSyntax = Seq (litR ''{{random:'') (Seq (Group 1 (plusR False anyChar)) (litR ''}}''))"

text \<open>\<open>/\$(\d)/g\<close>\<close>

definition backreference :: regex where
  "backreference = Seq (chrR CHR ''$'') (Group 1 (Cls False isDigit))"

text \<open>
  \<open>args[parseInt(groupIndex) - 1] || ''\<close>, where \<open>args\<close> are the arguments of the replacer
  after the match itself: the \<open>m\<close> captures, the offset of the match and the whole text.
  An index past the captures therefore reads the offset (a number, falsy when 0) or the text.
\<close>

definition argOrEmpty :: "nat \<Rightarrow> string \<Rightarrow> rmatch \<Rightarrow> nat \<Rightarrow> string" where
  "argOrEmpty m s mt d =
     (if d = 0 then []
      else if d \<le> m then captureText (snd (snd mt)) d
      else if d = m + 1 then (if fst mt = 0 then [] else decimal (fst mt))
      else if d = m + 2 then s
      else [])"

text \<open>The chosen option with its \<open>$1\<close>, \<open>$2\<close>, ... replaced by the captures of this match.\<close>

definition substituteGroups :: "nat \<Rightarrow> string \<Rightarrow> rmatch \<Rightarrow> string \<Rightarrow> string" where
  "substituteGroups m s mt chosenOption =
     replaceAllFn False backreference chosenOption
       (\<lambda>ref. case captureText (snd (snd ref)) 1 of
                [] \<Rightarrow> []
              | groupIndex # ds \<Rightarrow> argOrEmpty m s mt (digitValue groupIndex))"

text \<open>
  \<open>Math.random()\<close> is a stream of draws \<open>rnd\<close> and the number \<open>k\<close> of draws made so far.
  \<open>randomReplacements\<close> runs the replacer on the matches in order: one draw each,
  \<open>options[Math.floor(Math.random() * options.length)].trim()\<close>, then the back-references.
  An index outside the options reads \<open>undefined\<close>, whose \<open>trim\<close> throws: the result is
  \<open>None\<close> then.
\<close>

fun randomReplacements ::
  "(nat \<Rightarrow> rat) \<Rightarrow> string list \<Rightarrow> nat \<Rightarrow> string \<Rightarrow> rmatch list \<Rightarrow> nat \<Rightarrow> string list option \<times> nat" where
  "randomReplacements rnd options m s [] k = (Some [], k)"
| "randomReplacements rnd options m s (mt # rest) k =
     (if 0 \<le> \<lfloor>rnd k * of_nat (length options)\<rfloor>
         \<and> nat \<lfloor>rnd k * of_nat (length options)\<rfloor> < length options
      then (case randomReplacements rnd options m s rest (Suc k) of
              (None, k') \<Rightarrow> (None, k')
            | (Some reps, k') \<Rightarrow>
                (Some (substituteGroups m s mt
                         (trim (options ! nat \<lfloor>rnd k * of_nat (length options)\<rfloor>)) # reps), k'))
      else (None, Suc k))"

text \<open>
  The body of the \<open>forEach\<close> of \<open>applyReplacements\<close>: one rule applied to the text so far.
  An exception (the pattern does not compile, or the replacer throws) is caught and leaves
  the text as it was.
\<close>

definition applyRule :: "(nat \<Rightarrow> rat) \<Rightarrow> rule \<Rightarrow> string \<times> nat \<Rightarrow> string \<times> nat" where
  "applyRule rnd rule tk =
     (case findRegex rule of
        None \<Rightarrow> tk
      | Some regex \<Rightarrow>
          if includesStr (replaceString rule) ''{{random:'' then
            (case search False randomSyntax (replaceString rule) 0 of
               None \<Rightarrow> tk
             | Some optionsMatch \<Rightarrow>
                 if captureText (snd (snd optionsMatch)) 1 = [] then tk
                 else
                   (case randomReplacements rnd
                           (splitOn CHR '','' (captureText (snd (snd optionsMatch)) 1))
                           (length (groupsOf regex)) (fst tk) (scan True regex (fst tk) 0) (snd tk) of
                      (None, k') \<Rightarrow> (fst tk, k')
                    | (Some reps, k') \<Rightarrow>
                        (splice (fst tk) 0 (zip (scan True regex (fst tk) 0) reps), k')))
          else (replaceAllStr True regex (fst tk) (replaceString rule), snd tk))"

definition applyReplacements ::
  "staticFixer \<Rightarrow> (nat \<Rightarrow> rat) \<Rightarrow> nat \<Rightarrow> string \<Rightarrow> string \<times> nat" where
  "applyReplacements fx rnd k text =
     (if text = [] \<or> \<not> fixerEnabled fx then (text, k)
      else fold (applyRule rnd) (filter (\<lambda>rule. \<not> disabled rule \<and> isStatic rule) (rules fx)) (text, k))"

text \<open>\<open>(\s*<[^>]*>)\<close>, the group of both patterns of \<open>fixCapitalization\<close>, as group \<open>n\<close>.\<close>

definition tagGroup :: "nat \<Rightarrow> regex" where
  "tagGroup n = Group n (Seq (Star True spaceCls)
                   (Seq (chrR CHR ''<'') (Seq (Star True (Cls True (\<lambda>c. c = CHR ''>''))) (chrR CHR ''>''))))"

text \<open>\<open>/^(\s*<[^>]*>)*([a-z])/s\<close>\<close>

definition firstLetter :: regex where
  "firstLetter = Seq Bol (Seq (Star True (tagGroup 1)) (Group 2 (Cls False isLowerAZ)))"

definition isSentenceEnd :: "char \<Rightarrow> bool" where
  "isSentenceEnd c = (c = CHR ''.'' \<or> c = CHR ''!'' \<or> c = CHR ''?'')"

text \<open>\<open>/([.!?])(\s*<[^>]*>)*\s+([a-z])/gs\<close>\<close>

definition afterSentence :: regex where
  "afterSentence = Seq (Group 1 (Cls False isSentenceEnd))
                     (Seq (Star True (tagGroup 2)) (Seq (plusR True spaceCls) (Group 3 (Cls False isLowerAZ))))"

definition fixCapitalization :: "string \<Rightarrow> string" where
  "fixCapitalization text =
     (if text = [] then text
      else replaceAllFn False afterSentence
             (replaceFirstFn False firstLetter text
                (\<lambda>mt. captureText (snd (snd mt)) 1 @ toUpperCase (captureText (snd (snd mt)) 2)))
             (\<lambda>mt. captureText (snd (snd mt)) 1 @ captureText (snd (snd mt)) 2 @ '' ''
                     @ toUpperCase (captureText (snd (snd mt)) 3)))"



definition process :: "staticFixer \<Rightarrow> (nat \<Rightarrow> rat) \<Rightarrow> nat \<Rightarrow> string \<Rightarrow> string \<times> nat" where
  "process fx rnd k text =
     (fixCapitalization (fst (applyReplacements fx rnd k text)), snd (applyReplacements fx rnd k text))"

section \<open>The Passive Watcher (passive-watcher.js)\<close>

text \<open>The value of an entry of \<open>ngramFrequencies\<close>.\<close>

record ngramData =
  count :: nat
  score :: rat
  lastSeen :: nat

record watcherSettings =
  ngramMin :: nat
  ngramMax :: nat
  slopThreshold :: rat
  pruningCycle :: nat
  patternMinCommon :: nat
  messagesToAnalyze :: nat

text \<open>
  The instance. The \<open>Map\<close> is an association list in insertion order without repeated
  keys, the \<open>Set\<close> of candidates a list in insertion order; the whitelist is the
  stop-word set, of which the program only asks membership.
\<close>

record watcher =
  settings :: watcherSettings
  ngramFrequencies :: "(string \<times> ngramData) list"
  slopCandidates :: "string list"
  totalMessagesProcessed :: nat
  enabled :: bool
  whitelist :: "string set"

text \<open>\<open>map.set(k, v)\<close>: an existing key keeps its place, a new one goes to the end.\<close>

fun mapSet :: "'k \<Rightarrow> 'v \<Rightarrow> ('k \<times> 'v) list \<Rightarrow> ('k \<times> 'v) list" where
  "mapSet k v [] = [(k, v)]"
| "mapSet k v ((k', v') # rest) =
     (if k' = k then (k, v) # rest else (k', v') # mapSet k v rest)"

definition setAdd :: "'a \<Rightarrow> 'a list \<Rightarrow> 'a list" where
  "setAdd x xs = (if x \<in> set xs then xs else xs @ [x])"

definition setDelete :: "'a \<Rightarrow> 'a list \<Rightarrow> 'a list" where
  "setDelete x xs = filter (\<lambda>y. y \<noteq> x) xs"

text \<open>\<open>/(?:```|~~~)\w*\s*[\s\S]*?(?:```|~~~)/g\<close>\<close>

definition codeBlock :: regex where
  "codeBlock =
     Seq (Alt (litR [CHR 0x60, CHR 0x60, CHR 0x60]) (litR ''~~~''))
       (Seq (Star True (Cls False isWordChar))
          (Seq (Star True spaceCls)
             (Seq (Star False anyChar) (Alt (litR [CHR 0x60, CHR 0x60, CHR 0x60]) (litR ''~~~'')))))"

text \<open>\<open>/<[^>]*>/g\<close>\<close>

definition htmlTag :: regex where
  "htmlTag = Seq (chrR CHR ''<'') (Seq (Star True (Cls True (\<lambda>c. c = CHR ''>''))) (chrR CHR ''>''))"

text \<open>\<open>(?:\*|_|~|`)\<close>\<close>

definition formatMark :: regex where
  "formatMark = Alt (chrR CHR ''*'') (Alt (chrR CHR ''_'') (Alt (chrR CHR ''~'') (chrR CHR 0x60)))"

text \<open>\<open>/(?:\*|_|~|`)+(.+?)(?:\*|_|~|`)+/g\<close>\<close>

definition markdownFormatting :: regex where
  "markdownFormatting =
     Seq (plusR True formatMark) (Seq (Group 1 (plusR False dotR)) (plusR True formatMark))"

text \<open>\<open>/"(.*?)"/g\<close>\<close>

definition quoted :: regex where
  "quoted = Seq (chrR CHR 0x22) (Seq (Group 1 (Star False dotR)) (chrR CHR 0x22))"

text \<open>\<open>/\((.*?)\)/g\<close>\<close>

definition parenthesised :: regex where
  "parenthesised = Seq (chrR CHR ''('') (Seq (Group 1 (Star False dotR)) (chrR CHR '')''))"

text \<open>\<open>/\s+/g\<close>\<close>

definition whitespaceRun :: regex where
  "whitespaceRun = plusR True spaceCls"

text \<open>\<open>stripMarkup\<close>, called on a text that is not empty.\<close>

definition stripMarkup :: "string \<Rightarrow> string" where
  "stripMarkup text =
     (if text = [] then []
      else trim (replaceAllStr False whitespaceRun
                  (replaceAllStr False parenthesised
                    (replaceAllStr False quoted
                      (replaceAllStr False markdownFormatting
                        (replaceAllStr False htmlTag
                          (replaceAllStr False codeBlock text '' '') '' '') ''$1'') '' $1 '') '' $1 '') '' ''))"

definition generateNgrams :: "string list \<Rightarrow> nat \<Rightarrow> string list" where
  "generateNgrams words n =
     (if length words < n then []
      else map (\<lambda>i. joinWith '' '' (take n (drop i words))) [0 ..< Suc (length words - n)])"

definition isPhraseLowQuality :: "watcher \<Rightarrow> string \<Rightarrow> bool" where
  "isPhraseLowQuality st phrase =
     (if length (splitOn CHR '' '' (toLowerCase phrase)) < ngramMin (settings st) then True
      else if (\<forall>word \<in> set (splitOn CHR '' '' (toLowerCase phrase)). word \<in> whitelist st) then True
      else False)"

text \<open>The bonus for uncommon words: the words of the n-gram that the whitelist does not have.\<close>

definition uncommonWordCount :: "watcher \<Rightarrow> string \<Rightarrow> nat" where
  "uncommonWordCount st ngram =
     fold (\<lambda>word count. count + (if word \<in> whitelist st then 0 else 1)) (splitOn CHR '' '' ngram) 0"

text \<open>
  \<open>scoreIncrement\<close> after its three assignments:
  \<open>1.0\<close>, \<open>+= (n - ngramMin) * 0.2\<close>, \<open>+= uncommonWordCount * 0.5\<close>.
\<close>

definition scoreIncrement :: "watcher \<Rightarrow> nat \<Rightarrow> string \<Rightarrow> rat" where
  "scoreIncrement st n ngram =
     fadd (fadd 1 (fmul (fsub (of_nat n) (of_nat (ngramMin (settings st)))) (round64 (2 / 10))))
       (fmul (of_nat (uncommonWordCount st ngram)) (round64 (5 / 10)))"

text \<open>What \<open>ngramFrequencies.get(ngram) || {count: 0, score: 0, lastSeen: ...}\<close> gives.\<close>

definition currentData :: "watcher \<Rightarrow> string \<Rightarrow> ngramData" where
  "currentData st ngram =
     (case map_of (ngramFrequencies st) ngram of
        Some d \<Rightarrow> d
      | None \<Rightarrow> \<lparr>count = 0, score = 0, lastSeen = totalMessagesProcessed st\<rparr>)"

text \<open>The body of the innermost loop of \<open>analyzeMessage\<close>, for one n-gram of window size \<open>n\<close>.\<close>

definition trackNgram :: "nat \<Rightarrow> string \<Rightarrow> watcher \<Rightarrow> watcher" where
  "trackNgram n ngram st =
     (if isPhraseLowQuality st ngram then st
      else
        let newCount = count (currentData st ngram) + 1;
            newScore = fadd (score (currentData st ngram)) (scoreIncrement st n ngram)
        in st\<lparr>ngramFrequencies :=
                 mapSet ngram
                   \<lparr>count = newCount, score = newScore, lastSeen = totalMessagesProcessed st\<rparr>
                   (ngramFrequencies st),
              slopCandidates :=
                 (if slopThreshold (settings st) \<le> newScore
                     \<and> score (currentData st ngram) < slopThreshold (settings st)
                  then setAdd ngram (slopCandidates st) else slopCandidates st)\<rparr>)"

text \<open>\<open>/[^.!?]+[.!?]+["]?/g\<close>\<close>

definition sentencePattern :: regex where
  "sentencePattern =
     Seq (plusR True (Cls True isSentenceEnd))
       (Seq (plusR True (Cls False isSentenceEnd)) (optR (chrR CHR 0x22)))"

definition sentencesOf :: "string \<Rightarrow> string list" where
  "sentencesOf cleanText =
     (case matchStrings sentencePattern cleanText of [] \<Rightarrow> [cleanText] | x # xs \<Rightarrow> x # xs)"

text \<open>
  \<open>sentence.replace(/[.,!?]/g, '').toLowerCase().split(/\s+/).filter(Boolean)\<close>: removing
  every character of a one-character class is a filter.
\<close>

definition tokenize :: "string \<Rightarrow> string list" where
  "tokenize sentence =
     filter (\<lambda>w. w \<noteq> [])
       (splitWhitespace (toLowerCase (filter (\<lambda>c. \<not> (isSentenceEnd c \<or> c = CHR '','')) sentence)))"

text \<open>The n-grams of one sentence in the order of the loops, each with its window size.\<close>

definition sentenceNgrams :: "watcher \<Rightarrow> string \<Rightarrow> (nat \<times> string) list" where
  "sentenceNgrams st sentence =
     (if trim sentence = [] then []
      else concat (map (\<lambda>n. if length (tokenize sentence) < n then []
                             else map (\<lambda>ngram. (n, ngram)) (generateNgrams (tokenize sentence) n))
                     [ngramMin (settings st) ..< Suc (ngramMax (settings st))]))"

text \<open>All n-grams that the loops of \<open>analyzeMessage\<close> visit for a clean text, in order.\<close>

definition textNgrams :: "watcher \<Rightarrow> string \<Rightarrow> (nat \<times> string) list" where
  "textNgrams st cleanText = concat (map (sentenceNgrams st) (sentencesOf cleanText))"

definition pruneAge :: "watcher \<Rightarrow> ngramData \<Rightarrow> int" where
  "pruneAge st d = int (totalMessagesProcessed st) - int (lastSeen d)"

text \<open>
  The loop of \<open>pruneOldNgrams\<close> over the entries, from the first: the entries that stay,
  and the candidates that stay.
\<close>

fun pruneEntries ::
  "watcher \<Rightarrow> (string \<times> ngramData) list \<Rightarrow> string list
     \<Rightarrow> (string \<times> ngramData) list \<times> string list" where
  "pruneEntries st [] cands = ([], cands)"
| "pruneEntries st ((ngram, d) # rest) cands =
     (if int (pruningCycle (settings st)) < pruneAge st d then
        (if score d < slopThreshold (settings st)
         then pruneEntries st rest (setDelete ngram cands)
         else ((ngram, d\<lparr>score := fmul (score d) (round64 (9 / 10))\<rparr>)
                 # fst (pruneEntries st rest cands),
               snd (pruneEntries st rest cands)))
      else ((ngram, d) # fst (pruneEntries st rest cands), snd (pruneEntries st rest cands)))"

definition pruneOldNgrams :: "watcher \<Rightarrow> watcher" where
  "pruneOldNgrams st =
     st\<lparr>ngramFrequencies := fst (pruneEntries st (ngramFrequencies st) (slopCandidates st)),
        slopCandidates := snd (pruneEntries st (ngramFrequencies st) (slopCandidates st))\<rparr>"

text \<open>The loops of \<open>analyzeMessage\<close> over the sentences of the clean text.\<close>

definition trackText :: "watcher \<Rightarrow> string \<Rightarrow> watcher" where
  "trackText st cleanText =
     fold (\<lambda>sentence st'. fold (\<lambda>(n, ngram). trackNgram n ngram) (sentenceNgrams st' sentence) st')
       (sentencesOf cleanText) st"

text \<open>The end of \<open>analyzeMessage\<close>: the counter, and the pruning when it is due. The
  remainder by zero is \<open>NaN\<close> in the program, which is not 0.\<close>

definition countMessage :: "watcher \<Rightarrow> watcher" where
  "countMessage st =
     (if pruningCycle (settings st) \<noteq> 0
         \<and> Suc (totalMessagesProcessed st) mod pruningCycle (settings st) = 0
      then pruneOldNgrams (st\<lparr>totalMessagesProcessed := Suc (totalMessagesProcessed st)\<rparr>)
      else st\<lparr>totalMessagesProcessed := Suc (totalMessagesProcessed st)\<rparr>)"

text \<open>\<open>analyzeMessage\<close>; \<open>None\<close> is a text that is \<open>null\<close> or \<open>undefined\<close>.\<close>

definition analyzeMessage :: "watcher \<Rightarrow> string option \<Rightarrow> watcher" where
  "analyzeMessage st text =
     (case text of
        None \<Rightarrow> st
      | Some t \<Rightarrow>
          if t = [] \<or> \<not> enabled st then st
          else if trim (stripMarkup t) = [] then st
          else countMessage (trackText st (stripMarkup t)))"

text \<open>An element of the result of \<open>getOverusedPhrases\<close>: \<open>{phrase, score, count}\<close>.\<close>

record overusedPhrase =
  phrase :: string
  phraseScore :: rat
  phraseCount :: nat

text \<open>
  \<open>getOverusedPhrases(minScore = 5.0)\<close>; \<open>None\<close> is a call without the argument. The sort
  with the comparator \<open>b.score - a.score\<close> is stable.
\<close>

definition getOverusedPhrases :: "watcher \<Rightarrow> rat option \<Rightarrow> overusedPhrase list" where
  "getOverusedPhrases st minScore =
     sort_key (\<lambda>p. - phraseScore p)
       (map (\<lambda>(ngram, d). \<lparr>phrase = ngram, phraseScore = score d, phraseCount = count d\<rparr>)
          (filter (\<lambda>(ngram, d). (case minScore of None \<Rightarrow> 5 | Some m \<Rightarrow> m) \<le> score d)
             (ngramFrequencies st)))"

record watcherStats =
  totalPhrases :: nat
  slopCandidateCount :: nat
  messagesProcessed :: nat
  topPhrases :: "overusedPhrase list"

definition getStats :: "watcher \<Rightarrow> watcherStats" where
  "getStats st =
     \<lparr>totalPhrases = length (ngramFrequencies st),
      slopCandidateCount = length (slopCandidates st),
      messagesProcessed = totalMessagesProcessed st,
      topPhrases = take 10 (getOverusedPhrases st None)\<rparr>"

definition reset :: "watcher \<Rightarrow> watcher" where
  "reset st = st\<lparr>ngramFrequencies := [], slopCandidates := [], totalMessagesProcessed := 0\<rparr>"

text \<open>A message of the chat: who wrote it, and its text.\<close>

record message =
  is_user :: bool
  mes :: string

text \<open>\<open>xs.slice(-n)\<close>: the last \<open>n\<close> elements, and all of them when \<open>n\<close> is 0.\<close>

definition sliceLast :: "nat \<Rightarrow> 'a list \<Rightarrow> 'a list" where
  "sliceLast n xs = (if n = 0 then xs else drop (length xs - n) xs)"

definition recentMessages :: "watcher \<Rightarrow> message list \<Rightarrow> message list" where
  "recentMessages st messages =
     sliceLast (messagesToAnalyze (settings st))
       (filter (\<lambda>msg. \<not> is_user msg \<and> mes msg \<noteq> []) messages)"

record batchResult =
  analyzed :: nat
  overusedPhrases :: "overusedPhrase list"
  stats :: watcherStats

text \<open>\<open>analyzeChatHistory\<close>: the instance afterwards, and the object returned.\<close>

definition analyzeChatHistory :: "watcher \<Rightarrow> message list \<Rightarrow> watcher \<times> batchResult" where
  "analyzeChatHistory st messages =
     (let st' = fold (\<lambda>msg s. analyzeMessage s (Some (mes msg))) (recentMessages st messages) (reset st)
      in (st', \<lparr>analyzed = length (recentMessages st messages),
                overusedPhrases = getOverusedPhrases st' None,
                stats = getStats st'\<rparr>))"

section \<open>Instances used in the examples\<close>

text \<open>A watcher as the constructor makes it, with the first stop words of \<open>COMMON_WORDS\<close>.\<close>

definition exampleWatcher :: watcher where
  "exampleWatcher =
     \<lparr>settings = \<lparr>ngramMin = 3, ngramMax = 7, slopThreshold = 5, pruningCycle = 20,
                   patternMinCommon = 2, messagesToAnalyze = 20\<rparr>,
      ngramFrequencies = [], slopCandidates = [], totalMessagesProcessed = 0, enabled = True,
      whitelist = {''the'', ''of'', ''to'', ''and'', ''a'', ''in'', ''is'', ''it'', ''you'',
                   ''that'', ''he'', ''was'', ''for'', ''on'', ''are'', ''with'', ''as'', ''I'',
                   ''his''}\<rparr>"

text \<open>A watcher about to prune: the counter is 3, the cycle 2, the threshold 5; two entries
  were last seen at message 0, one below the threshold and one above it with the score 10.5,
  and one at message 3.\<close>

definition staleWatcher :: watcher where
  "staleWatcher =
     exampleWatcher
       \<lparr>settings := (settings exampleWatcher)\<lparr>pruningCycle := 2\<rparr>,
        ngramFrequencies :=
          [(''her cheeks flushed'', \<lparr>count = 1, score = 5 / 2, lastSeen = 0\<rparr>),
           (''his heart pounded'', \<lparr>count = 5, score = 21 / 2, lastSeen = 0\<rparr>),
           (''a new dawn'', \<lparr>count = 1, score = 2, lastSeen = 3\<rparr>)],
        slopCandidates := [''his heart pounded''],
        totalMessagesProcessed := 3\<rparr>"

text \<open>A watcher configured with the threshold 3 that has seen two messages.\<close>

definition tunedWatcher :: watcher where
  "tunedWatcher =
     analyzeMessage
       (analyzeMessage (exampleWatcher\<lparr>settings := (settings exampleWatcher)\<lparr>slopThreshold := 3\<rparr>\<rparr>)
          (Some ''His heart pounded.''))
       (Some ''His heart pounded again.'')"

text \<open>A watcher that has seen the same message twice.\<close>

definition dragonWatcher :: watcher where
  "dragonWatcher =
     analyzeMessage (analyzeMessage exampleWatcher (Some ''The dragon roared loudly.''))
       (Some ''The dragon roared loudly.'')"

definition userChat :: "message list" where
  "userChat = [\<lparr>is_user = True, mes = ''The dragon roared loudly.''\<rparr>]"

definition mixedChat :: "message list" where
  "mixedChat = [\<lparr>is_user = False, mes = ''The dragon roared loudly.''\<rparr>,
                \<lparr>is_user = True, mes = ''I draw my sword.''\<rparr>,
                \<lparr>is_user = False, mes = []\<rparr>]"

text \<open>The rule of the end-to-end scenario: \<open>\bheart pounded\b\<close> with two alternatives.\<close>

definition heartPattern :: regex where
  "heartPattern = Seq WordB (Seq (litR ''heart pounded'') WordB)"

definition heartRule :: rule where
  "heartRule = \<lparr>findRegex = Some heartPattern,
                 replaceString = ''{{random:pulse quickened,chest tightened}}'',
                 disabled = False, isStatic = True\<rparr>"

definition heartFixer :: staticFixer where
  "heartFixer = \<lparr>rules = [heartRule], fixerEnabled = True\<rparr>"

text \<open>The same rule with the closing braces of its alternatives missing.\<close>

definition malformedRule :: rule where
  "malformedRule = heartRule\<lparr>replaceString := ''{{random:pulse quickened,chest tightened''\<rparr>"

section \<open>Properties of the Passive Watcher\<close>

subsection \<open>What the loops leave alone\<close>

lemma trackNgram_frame:
  "settings (trackNgram n g st) = settings st"
  "totalMessagesProcessed (trackNgram n g st) = totalMessagesProcessed st"
  "enabled (trackNgram n g st) = enabled st"
  "whitelist (trackNgram n g st) = whitelist st"
  by (simp_all add: trackNgram_def Let_def)

lemma fold_trackNgram_frame:
  "settings (fold (\<lambda>(n, g). trackNgram n g) xs st) = settings st
   \<and> totalMessagesProcessed (fold (\<lambda>(n, g). trackNgram n g) xs st) = totalMessagesProcessed st
   \<and> enabled (fold (\<lambda>(n, g). trackNgram n g) xs st) = enabled st
   \<and> whitelist (fold (\<lambda>(n, g). trackNgram n g) xs st) = whitelist st"
  by (induction xs arbitrary: st) (auto simp: trackNgram_frame)

lemma trackText_frame:
  "settings (trackText st t) = settings st
   \<and> totalMessagesProcessed (trackText st t) = totalMessagesProcessed st
   \<and> enabled (trackText st t) = enabled st
   \<and> whitelist (trackText st t) = whitelist st"
proof -
  have "settings (fold (\<lambda>sentence st'. fold (\<lambda>(n, ngram). trackNgram n ngram)
                    (sentenceNgrams st' sentence) st') ss st) = settings st
      \<and> totalMessagesProcessed (fold (\<lambda>sentence st'. fold (\<lambda>(n, ngram). trackNgram n ngram)
                    (sentenceNgrams st' sentence) st') ss st) = totalMessagesProcessed st
      \<and> enabled (fold (\<lambda>sentence st'. fold (\<lambda>(n, ngram). trackNgram n ngram)
                    (sentenceNgrams st' sentence) st') ss st) = enabled st
      \<and> whitelist (fold (\<lambda>sentence st'. fold (\<lambda>(n, ngram). trackNgram n ngram)
                    (sentenceNgrams st' sentence) st') ss st) = whitelist st" for ss
    by (induction ss arbitrary: st) (simp_all add: fold_trackNgram_frame)
  then show ?thesis by (simp add: trackText_def)
qed

subsection \<open>Texts that are not observed\<close>

text \<open>
  C10. Observing a text that is null, empty, or empty once its markup is stripped returns
  the watcher as it was: the table of n-grams, the candidates and the message counter are
  the same, and no pruning has run.
\<close>

theorem analyzeMessage_blank_unchanged:
  "text = None \<or> text = Some [] \<or> (\<exists>t. text = Some t \<and> trim (stripMarkup t) = [])
   \<Longrightarrow> analyzeMessage st text = st"
  by (auto simp: analyzeMessage_def)

theorem analyzeMessage_blank_unchanged_witness:
  "trim (stripMarkup ''<b> </b>'') = []
   \<and> analyzeMessage staleWatcher (Some ''<b> </b>'') = staleWatcher
   \<and> analyzeMessage staleWatcher None = staleWatcher
   \<and> analyzeMessage staleWatcher (Some []) = staleWatcher"
proof -
  have h: "trim (stripMarkup ''<b> </b>'') = []" by code_simp
  show ?thesis
    using h analyzeMessage_blank_unchanged [of "Some ''<b> </b>''" staleWatcher]
      analyzeMessage_blank_unchanged [of None staleWatcher]
      analyzeMessage_blank_unchanged [of "Some []" staleWatcher]
    by simp
qed

subsection \<open>Pruning\<close>

lemma map_of_pruneEntries:
  "distinct (map fst es) \<Longrightarrow>
   map_of (fst (pruneEntries st es c)) k =
     (case map_of es k of
        None \<Rightarrow> None
      | Some d \<Rightarrow>
          if int (pruningCycle (settings st)) < int (totalMessagesProcessed st) - int (lastSeen d)
          then (if score d < slopThreshold (settings st) then None
                else Some (d\<lparr>score := fmul (score d) (round64 (9 / 10))\<rparr>))
          else Some d)"
proof (induction es arbitrary: c)
  case Nil
  then show ?case by simp
next
  case (Cons e es)
  obtain g d where e: "e = (g, d)" by (cases e)
  from Cons.prems e have nin: "g \<notin> fst ` set es" and dis: "distinct (map fst es)" by auto
  from nin have none: "map_of es g = None" by (simp add: map_of_eq_None_iff)
  show ?case
  proof (cases "k = g")
    case True
    with none Cons.IH [OF dis] e show ?thesis
      by (simp add: pruneAge_def)
  next
    case False
    with Cons.IH [OF dis] e show ?thesis
      by (simp add: pruneAge_def)
  qed
qed

lemma countMessage_counter:
  "totalMessagesProcessed (countMessage st) = Suc (totalMessagesProcessed st)"
  by (simp add: countMessage_def pruneOldNgrams_def)

text \<open>
  C2. Pruning looks at every entry of the table (a \<open>Map\<close>, so its keys are distinct;
  they stay so, see below): with age = counter - lastSeen, an entry
  older than pruningCycle is deleted when its score is below the threshold and has its
  score multiplied by 0.9 otherwise, the product of the two binary64 numbers as the
  program computes it; an entry of age at most pruningCycle stays as it is,
  and no entry appears. A message that is observed advances the counter by one, and
  pruning runs at the end of that call exactly when the new counter is a multiple of
  pruningCycle. (In the example the score 10.5 becomes 9.450000000000001.)
\<close>

theorem pruneOldNgrams_entries:
  "distinct (map fst (ngramFrequencies st)) \<Longrightarrow>
   map_of (ngramFrequencies (pruneOldNgrams st)) ngram =
     (case map_of (ngramFrequencies st) ngram of
        None \<Rightarrow> None
      | Some d \<Rightarrow>
          if int (pruningCycle (settings st)) < int (totalMessagesProcessed st) - int (lastSeen d)
          then (if score d < slopThreshold (settings st) then None
                else Some (d\<lparr>score := fmul (score d) (round64 (9 / 10))\<rparr>))
          else Some d)
   \<and> (enabled st \<and> t \<noteq> [] \<and> trim (stripMarkup t) \<noteq> [] \<and> 0 < pruningCycle (settings st) \<longrightarrow>
        totalMessagesProcessed (analyzeMessage st (Some t)) = Suc (totalMessagesProcessed st)
        \<and> analyzeMessage st (Some t) =
            (if pruningCycle (settings st) dvd Suc (totalMessagesProcessed st)
             then pruneOldNgrams
                    ((trackText st (stripMarkup t))
                       \<lparr>totalMessagesProcessed := Suc (totalMessagesProcessed st)\<rparr>)
             else (trackText st (stripMarkup t))
                    \<lparr>totalMessagesProcessed := Suc (totalMessagesProcessed st)\<rparr>))"
proof (intro conjI impI)
  assume "distinct (map fst (ngramFrequencies st))"
  then show "map_of (ngramFrequencies (pruneOldNgrams st)) ngram =
     (case map_of (ngramFrequencies st) ngram of
        None \<Rightarrow> None
      | Some d \<Rightarrow>
          if int (pruningCycle (settings st)) < int (totalMessagesProcessed st) - int (lastSeen d)
          then (if score d < slopThreshold (settings st) then None
                else Some (d\<lparr>score := fmul (score d) (round64 (9 / 10))\<rparr>))
          else Some d)"
    by (simp add: pruneOldNgrams_def map_of_pruneEntries)
next
  assume a: "enabled st \<and> t \<noteq> [] \<and> trim (stripMarkup t) \<noteq> [] \<and> 0 < pruningCycle (settings st)"
  then have am: "analyzeMessage st (Some t) = countMessage (trackText st (stripMarkup t))"
    by (simp add: analyzeMessage_def)
  show "totalMessagesProcessed (analyzeMessage st (Some t)) = Suc (totalMessagesProcessed st)"
    by (simp add: am countMessage_counter trackText_frame)
  show "analyzeMessage st (Some t) =
            (if pruningCycle (settings st) dvd Suc (totalMessagesProcessed st)
             then pruneOldNgrams
                    ((trackText st (stripMarkup t))
                       \<lparr>totalMessagesProcessed := Suc (totalMessagesProcessed st)\<rparr>)
             else (trackText st (stripMarkup t))
                    \<lparr>totalMessagesProcessed := Suc (totalMessagesProcessed st)\<rparr>)"
    using a by (simp add: am countMessage_def trackText_frame dvd_eq_mod_eq_0)
qed

theorem pruneOldNgrams_entries_witness:
  "distinct (map fst (ngramFrequencies staleWatcher))
   \<and> map_of (ngramFrequencies (pruneOldNgrams staleWatcher)) ''her cheeks flushed'' = None
   \<and> map_of (ngramFrequencies (pruneOldNgrams staleWatcher)) ''his heart pounded''
       = Some \<lparr>count = 5, score = 5319877059831399 / 562949953421312, lastSeen = 0\<rparr>
   \<and> (21 / 2) * (9 / 10) < (5319877059831399 / 562949953421312 :: rat)
   \<and> map_of (ngramFrequencies (pruneOldNgrams staleWatcher)) ''a new dawn''
       = Some \<lparr>count = 1, score = 2, lastSeen = 3\<rparr>
   \<and> enabled staleWatcher
   \<and> trim (stripMarkup ''A new dawn rises.'') \<noteq> []
   \<and> totalMessagesProcessed (analyzeMessage staleWatcher (Some ''A new dawn rises.'')) = 4
   \<and> analyzeMessage staleWatcher (Some ''A new dawn rises.'') =
       pruneOldNgrams ((trackText staleWatcher (stripMarkup ''A new dawn rises.''))
                         \<lparr>totalMessagesProcessed := 4\<rparr>)"
proof -
  have d: "distinct (map fst (ngramFrequencies staleWatcher))"
    by (simp add: staleWatcher_def exampleWatcher_def)
  have s: "trim (stripMarkup ''A new dawn rises.'') \<noteq> []"
    by code_simp
  have v: "enabled staleWatcher" "pruningCycle (settings staleWatcher) = 2"
    "totalMessagesProcessed staleWatcher = 3" "slopThreshold (settings staleWatcher) = 5"
    by (simp_all add: staleWatcher_def exampleWatcher_def)
  have e: "map_of (ngramFrequencies staleWatcher) ''her cheeks flushed''
             = Some \<lparr>count = 1, score = 5 / 2, lastSeen = 0\<rparr>"
    "map_of (ngramFrequencies staleWatcher) ''his heart pounded''
             = Some \<lparr>count = 5, score = 21 / 2, lastSeen = 0\<rparr>"
    "map_of (ngramFrequencies staleWatcher) ''a new dawn''
             = Some \<lparr>count = 1, score = 2, lastSeen = 3\<rparr>"
    by (simp_all add: staleWatcher_def exampleWatcher_def)
  have m: "fmul (21 / 2) (round64 (9 / 10)) = 5319877059831399 / 562949953421312"
    by code_simp
  show ?thesis
    using pruneOldNgrams_entries [OF d, of "''her cheeks flushed''" "''A new dawn rises.''"]
      pruneOldNgrams_entries [OF d, of "''his heart pounded''" "''A new dawn rises.''"]
      pruneOldNgrams_entries [OF d, of "''a new dawn''" "''A new dawn rises.''"]
    by (simp add: d s v e m)
qed

subsection \<open>The query for overused phrases\<close>

lemma analyzeMessage_settings:
  "settings (analyzeMessage st text) = settings st"
  by (simp add: analyzeMessage_def countMessage_def pruneOldNgrams_def trackText_frame
        split: option.splits)

lemma tunedWatcher_table:
  "ngramFrequencies tunedWatcher =
     [(''his heart pounded'', \<lparr>count = 2, score = 4, lastSeen = 1\<rparr>),
      (''heart pounded again'', \<lparr>count = 1, score = 5 / 2, lastSeen = 1\<rparr>),
      (''his heart pounded again'',
         \<lparr>count = 1, score = 3039929748475085 / 1125899906842624, lastSeen = 1\<rparr>)]"
  by code_simp

text \<open>
  C3, as the claim has it, fails: a call without the argument does not use the configured
  threshold. On a watcher configured with the threshold 3 that has seen "His heart
  pounded." and "His heart pounded again.", the phrase "his heart pounded" has the score
  4: the call without argument returns nothing, the call with the configured threshold
  returns the phrase.
\<close>

theorem getOverusedPhrases_default_counterexample:
  "slopThreshold (settings tunedWatcher) = 3
   \<and> getOverusedPhrases tunedWatcher None = []
   \<and> getOverusedPhrases tunedWatcher (Some (slopThreshold (settings tunedWatcher)))
       = [\<lparr>phrase = ''his heart pounded'', phraseScore = 4, phraseCount = 2\<rparr>]
   \<and> getOverusedPhrases tunedWatcher None
       \<noteq> getOverusedPhrases tunedWatcher (Some (slopThreshold (settings tunedWatcher)))"
proof -
  have s: "slopThreshold (settings tunedWatcher) = 3"
    by (simp add: tunedWatcher_def analyzeMessage_settings exampleWatcher_def)
  show ?thesis
    by (simp add: s getOverusedPhrases_def tunedWatcher_table)
qed

text \<open>
  C3, amended. A call without the argument uses the fixed cutoff 5.0, whatever threshold
  is configured. For every cutoff the result holds exactly the projections
  \<open>{phrase, score, count}\<close> of the entries whose score is at or above the cutoff, each as
  often as the table has it, in descending order of score.
\<close>

theorem getOverusedPhrases_result:
  "getOverusedPhrases st None = getOverusedPhrases st (Some 5)
   \<and> mset (getOverusedPhrases st (Some minScore)) =
       mset (map (\<lambda>(ngram, d). \<lparr>phrase = ngram, phraseScore = score d, phraseCount = count d\<rparr>)
              (filter (\<lambda>(ngram, d). minScore \<le> score d) (ngramFrequencies st)))
   \<and> sorted_wrt (\<lambda>a b. phraseScore b \<le> phraseScore a) (getOverusedPhrases st (Some minScore))"
proof -
  have "sorted (map (\<lambda>p. - phraseScore p) (getOverusedPhrases st (Some minScore)))"
    by (simp add: getOverusedPhrases_def)
  then have "sorted_wrt (\<lambda>a b. phraseScore b \<le> phraseScore a)
               (getOverusedPhrases st (Some minScore))"
    by (simp add: sorted_map)
  then show ?thesis
    by (simp add: getOverusedPhrases_def)
qed

subsection \<open>Batch analysis\<close>

text \<open>
  C4, as the claim has it, fails: the batch analysis does look at the speaker. A chat of one
  message written by the user is not observed at all, although its text is not empty and
  observing that text would enter three n-grams.
\<close>

theorem analyzeChatHistory_user_counterexample:
  "analyzed (snd (analyzeChatHistory exampleWatcher userChat)) = 0
   \<and> ngramFrequencies (fst (analyzeChatHistory exampleWatcher userChat)) = []
   \<and> map fst (ngramFrequencies
        (fold (\<lambda>msg s. analyzeMessage s (Some (mes msg)))
           (sliceLast (messagesToAnalyze (settings exampleWatcher))
              (filter (\<lambda>msg. mes msg \<noteq> []) userChat))
           (reset exampleWatcher)))
       = [''the dragon roared'', ''dragon roared loudly'', ''the dragon roared loudly'']"
  by code_simp

text \<open>
  C4, amended. The batch analysis resets the watcher and then observes, in order, the last
  messagesToAnalyze (when that is positive) of the messages that are not written by the
  user and whose text is not empty; it reports how many those are. Messages written by
  the user play no part: the outcome is that of the chat without them.
\<close>

theorem analyzeChatHistory_observes:
  "0 < messagesToAnalyze (settings st) \<Longrightarrow>
   fst (analyzeChatHistory st messages) =
     fold (\<lambda>msg s. analyzeMessage s (Some (mes msg)))
       (drop (length (filter (\<lambda>msg. \<not> is_user msg \<and> mes msg \<noteq> []) messages)
                - messagesToAnalyze (settings st))
          (filter (\<lambda>msg. \<not> is_user msg \<and> mes msg \<noteq> []) messages))
       (reset st)
   \<and> analyzed (snd (analyzeChatHistory st messages)) =
       min (messagesToAnalyze (settings st))
         (length (filter (\<lambda>msg. \<not> is_user msg \<and> mes msg \<noteq> []) messages))
   \<and> analyzeChatHistory st messages
       = analyzeChatHistory st (filter (\<lambda>msg. \<not> is_user msg) messages)"
  by (auto simp: analyzeChatHistory_def recentMessages_def sliceLast_def Let_def conj_commute)

theorem analyzeChatHistory_observes_witness:
  "0 < messagesToAnalyze (settings exampleWatcher)
   \<and> fst (analyzeChatHistory exampleWatcher mixedChat) =
       analyzeMessage (reset exampleWatcher) (Some ''The dragon roared loudly.'')
   \<and> analyzed (snd (analyzeChatHistory exampleWatcher mixedChat)) = 1
   \<and> analyzeChatHistory exampleWatcher mixedChat
       = analyzeChatHistory exampleWatcher [\<lparr>is_user = False, mes = ''The dragon roared loudly.''\<rparr>,
                                             \<lparr>is_user = False, mes = []\<rparr>]"
proof -
  have h: "0 < messagesToAnalyze (settings exampleWatcher)"
    by (simp add: exampleWatcher_def)
  have m: "messagesToAnalyze (settings exampleWatcher) = 20"
    by (simp add: exampleWatcher_def)
  have r: "filter (\<lambda>msg. \<not> is_user msg \<and> mes msg \<noteq> []) mixedChat
             = [\<lparr>is_user = False, mes = ''The dragon roared loudly.''\<rparr>]"
    by (simp add: mixedChat_def)
  have u: "filter (\<lambda>msg. \<not> is_user msg) mixedChat
             = [\<lparr>is_user = False, mes = ''The dragon roared loudly.''\<rparr>,
                \<lparr>is_user = False, mes = []\<rparr>]"
    by (simp add: mixedChat_def)
  note T = analyzeChatHistory_observes [OF h, of mixedChat]
  have a: "fst (analyzeChatHistory exampleWatcher mixedChat) =
             analyzeMessage (reset exampleWatcher) (Some ''The dragon roared loudly.'')"
    using T [THEN conjunct1] by (simp add: m r)
  have b: "analyzed (snd (analyzeChatHistory exampleWatcher mixedChat)) = 1"
    using T [THEN conjunct2, THEN conjunct1] by (simp add: m r)
  have c: "analyzeChatHistory exampleWatcher mixedChat
             = analyzeChatHistory exampleWatcher
                 [\<lparr>is_user = False, mes = ''The dragon roared loudly.''\<rparr>,
                  \<lparr>is_user = False, mes = []\<rparr>]"
    using T [THEN conjunct2, THEN conjunct2] by (simp add: u)
  from h a b c show ?thesis by blast
qed

subsection \<open>Tracking n-grams\<close>

lemma map_of_mapSet: "map_of (mapSet k v tbl) = (map_of tbl)(k \<mapsto> v)"
  by (induction tbl) (auto simp: fun_eq_iff)

lemma map_fst_mapSet:
  "map fst (mapSet k v tbl) = (if k \<in> fst ` set tbl then map fst tbl else map fst tbl @ [k])"
proof (induction tbl)
  case Nil
  then show ?case by simp
next
  case (Cons e tbl)
  obtain a b where e: "e = (a, b)" by (cases e)
  show ?case
  proof (cases "a = k")
    case True
    with e show ?thesis by simp
  next
    case False
    with e Cons show ?thesis by (cases "k \<in> fst ` set tbl") simp_all
  qed
qed

lemma keys_mapSet: "fst ` set (mapSet k v tbl) = insert k (fst ` set tbl)"
proof -
  have "set (map fst (mapSet k v tbl)) = insert k (set (map fst tbl))"
    unfolding map_fst_mapSet by auto
  then show ?thesis by simp
qed

lemma distinct_mapSet: "distinct (map fst tbl) \<Longrightarrow> distinct (map fst (mapSet k v tbl))"
  unfolding map_fst_mapSet by auto

lemma splitOn_no_sep: "sep \<notin> set w \<Longrightarrow> splitOn sep w = [w]"
  by (induction w) auto

lemma splitOn_append:
  "sep \<notin> set w \<Longrightarrow> splitOn sep (w @ sep # rest) = w # splitOn sep rest"
  by (induction w) auto

lemma splitOn_joinWith:
  "ws \<noteq> [] \<Longrightarrow> \<forall>w\<in>set ws. CHR '' '' \<notin> set w \<Longrightarrow>
   splitOn CHR '' '' (joinWith '' '' ws) = ws"
proof (induction ws)
  case Nil
  then show ?case by simp
next
  case (Cons w ws)
  show ?case
  proof (cases ws)
    case Nil
    with Cons.prems show ?thesis by (simp add: splitOn_no_sep)
  next
    case (Cons v vs)
    with Cons.prems Cons.IH show ?thesis by (simp add: splitOn_append)
  qed
qed

lemma uncommonWordCount_fold:
  "fold (\<lambda>word count. count + (if word \<in> W then 0 else 1)) ws a
     = a + length (filter (\<lambda>w. w \<notin> W) ws)"
  by (induction ws arbitrary: a) auto

lemma uncommonWordCount_tokens:
  "ws \<noteq> [] \<Longrightarrow> \<forall>w\<in>set ws. CHR '' '' \<notin> set w \<Longrightarrow>
   uncommonWordCount st (joinWith '' '' ws) = length (filter (\<lambda>w. w \<notin> whitelist st) ws)"
  by (simp add: uncommonWordCount_def splitOn_joinWith uncommonWordCount_fold)

lemma trackNgram_record:
  "\<not> isPhraseLowQuality st ngram \<Longrightarrow>
   map_of (ngramFrequencies (trackNgram n ngram st)) =
     (map_of (ngramFrequencies st))
       (ngram \<mapsto> \<lparr>count = count (currentData st ngram) + 1,
                  score = fadd (score (currentData st ngram)) (scoreIncrement st n ngram),
                  lastSeen = totalMessagesProcessed st\<rparr>)"
  by (simp add: trackNgram_def Let_def map_of_mapSet)

lemma trackNgram_skip:
  "isPhraseLowQuality st ngram \<Longrightarrow> trackNgram n ngram st = st"
  by (simp add: trackNgram_def Let_def)

lemma isSpace_space: "isSpace CHR '' ''"
  by (simp add: isSpace_def code_def)

lemma splitWhitespace_tokens:
  "w \<in> set (splitWhitespace s) \<Longrightarrow> c \<in> set w \<Longrightarrow> \<not> isSpace c \<and> c \<in> set s"
proof (induction s arbitrary: w rule: splitWhitespace.induct)
  case 1
  then show ?case by simp
next
  case (2 d ds)
  show ?case
  proof (cases "isSpace d")
    case True
    with 2 show ?thesis
      by (auto dest: set_dropWhileD)
  next
    case False
    show ?thesis
    proof (cases "splitWhitespace ds")
      case Nil
      with False 2 show ?thesis by auto
    next
      case (Cons v vs)
      with False 2 have w: "w = d # v \<or> w \<in> set vs" by auto
      from Cons have v: "v \<in> set (splitWhitespace ds)" by simp
      show ?thesis
      proof (cases "w = d # v")
        case True
        with 2(4) have "c = d \<or> c \<in> set v" by auto
        with False 2(2) [OF \<open>\<not> isSpace d\<close> v] show ?thesis by auto
      next
        case False
        with w Cons have "w \<in> set (splitWhitespace ds)" by simp
        from 2(2) [OF \<open>\<not> isSpace d\<close> this 2(4)] show ?thesis by simp
      qed
    qed
  qed
qed


lemma code_char_of: "n < 256 \<Longrightarrow> code (char_of n) = n"
  by (simp add: code_def)

lemma code_lt: "code c < 256"
  by (simp add: code_def)

lemma toLowerCaseChar_idem: "toLowerCaseChar (toLowerCaseChar c) = toLowerCaseChar c"
proof (cases "(65 \<le> code c \<and> code c \<le> 90) \<or> (192 \<le> code c \<and> code c \<le> 222 \<and> code c \<noteq> 215)")
  case True
  then have l: "toLowerCaseChar c = char_of (code c + 32)"
    by (simp add: toLowerCaseChar_def)
  from True have "code c + 32 < 256" by auto
  then have "code (char_of (code c + 32)) = code c + 32"
    by (rule code_char_of)
  with True have "toLowerCaseChar (char_of (code c + 32)) = char_of (code c + 32)"
    unfolding toLowerCaseChar_def [of "char_of (code c + 32)"] by auto
  with l show ?thesis by simp
next
  case False
  then have "toLowerCaseChar c = c" unfolding toLowerCaseChar_def by (rule if_not_P)
  then show ?thesis by simp
qed

lemma toLowerCase_idem: "toLowerCase (toLowerCase s) = toLowerCase s"
  by (simp add: toLowerCase_def toLowerCaseChar_idem)

lemma tokenize_tokens:
  assumes "w \<in> set (tokenize sentence)"
  shows "w \<noteq> [] \<and> CHR '' '' \<notin> set w \<and> toLowerCase w = w"
proof -
  let ?s = "toLowerCase (filter (\<lambda>c. \<not> (isSentenceEnd c \<or> c = CHR '','')) sentence)"
  from assms have w: "w \<in> set (splitWhitespace ?s)" and ne: "w \<noteq> []"
    by (auto simp: tokenize_def)
  have sp: "CHR '' '' \<notin> set w"
    using splitWhitespace_tokens [OF w] isSpace_space by blast
  have "\<forall>c\<in>set w. toLowerCaseChar c = c"
  proof
    fix c assume "c \<in> set w"
    with splitWhitespace_tokens [OF w] have "c \<in> set ?s" by blast
    then show "toLowerCaseChar c = c"
      by (auto simp: toLowerCase_def toLowerCaseChar_idem)
  qed
  then have "toLowerCase w = w"
    by (simp add: toLowerCase_def map_idI)
  with ne sp show ?thesis by simp
qed

lemma generateNgrams_windows:
  assumes "g \<in> set (generateNgrams tokens n)"
  shows "\<exists>ws. g = joinWith '' '' ws \<and> length ws = n \<and> set ws \<subseteq> set tokens"
proof -
  from assms have le: "n \<le> length tokens"
    and "g \<in> (\<lambda>i. joinWith '' '' (take n (drop i tokens))) ` {0 ..< Suc (length tokens - n)}"
    by (simp_all add: generateNgrams_def del: upt_Suc split: if_splits)
  then obtain i where "i < Suc (length tokens - n)" "g = joinWith '' '' (take n (drop i tokens))"
    by auto
  with le have i: "i + n \<le> length tokens" "g = joinWith '' '' (take n (drop i tokens))"
    by simp_all
  have "set (take n (drop i tokens)) \<subseteq> set tokens"
    by (meson set_take_subset set_drop_subset subset_trans)
  with i show ?thesis by (intro exI [of _ "take n (drop i tokens)"]) auto
qed

lemma sentenceNgrams_windows:
  assumes "(n, g) \<in> set (sentenceNgrams st sentence)"
  shows "ngramMin (settings st) \<le> n \<and> n \<le> ngramMax (settings st)
         \<and> (\<exists>ws. g = joinWith '' '' ws \<and> length ws = n
                \<and> (\<forall>w\<in>set ws. w \<noteq> [] \<and> CHR '' '' \<notin> set w \<and> toLowerCase w = w))"
proof -
  from assms have n: "ngramMin (settings st) \<le> n \<and> n \<le> ngramMax (settings st)"
    and g: "g \<in> set (generateNgrams (tokenize sentence) n)"
    by (auto simp: sentenceNgrams_def split: if_splits)
  from generateNgrams_windows [OF g] obtain ws where
    ws: "g = joinWith '' '' ws" "length ws = n" "set ws \<subseteq> set (tokenize sentence)"
    by blast
  from ws(3) tokenize_tokens have "\<forall>w\<in>set ws. w \<noteq> [] \<and> CHR '' '' \<notin> set w \<and> toLowerCase w = w"
    by blast
  with n ws show ?thesis by blast
qed

lemma textNgrams_windows:
  assumes "(n, g) \<in> set (textNgrams st cleanText)"
  shows "ngramMin (settings st) \<le> n \<and> n \<le> ngramMax (settings st)
         \<and> (\<exists>ws. g = joinWith '' '' ws \<and> length ws = n
                \<and> (\<forall>w\<in>set ws. w \<noteq> [] \<and> CHR '' '' \<notin> set w \<and> toLowerCase w = w))"
  using assms sentenceNgrams_windows by (auto simp: textNgrams_def)

lemma sentenceNgrams_cong:
  "settings st' = settings st \<Longrightarrow> sentenceNgrams st' sentence = sentenceNgrams st sentence"
  by (simp add: sentenceNgrams_def)

lemma trackText_fold:
  "trackText st cleanText = fold (\<lambda>(n, ngram). trackNgram n ngram) (textNgrams st cleanText) st"
proof -
  have "settings s = settings st \<Longrightarrow>
        fold (\<lambda>sentence st'. fold (\<lambda>(n, ngram). trackNgram n ngram)
                (sentenceNgrams st' sentence) st') ss s
          = fold (\<lambda>(n, ngram). trackNgram n ngram) (concat (map (sentenceNgrams st) ss)) s" for ss s
  proof (induction ss arbitrary: s)
    case Nil
    then show ?case by simp
  next
    case (Cons x ss)
    have "settings (fold (\<lambda>(n, ngram). trackNgram n ngram) (sentenceNgrams st x) s) = settings st"
      using Cons.prems by (simp add: fold_trackNgram_frame)
    from Cons.IH [OF this] show ?case
      by (simp add: sentenceNgrams_cong [OF Cons.prems])
  qed
  then show ?thesis by (simp add: trackText_def textNgrams_def)
qed

lemma isPhraseLowQuality_cong:
  "settings st' = settings st \<Longrightarrow> whitelist st' = whitelist st \<Longrightarrow>
   isPhraseLowQuality st' g = isPhraseLowQuality st g"
  by (simp add: isPhraseLowQuality_def)

lemma keys_trackNgram:
  "fst ` set (ngramFrequencies (trackNgram n g s))
     = (if isPhraseLowQuality s g then fst ` set (ngramFrequencies s)
        else insert g (fst ` set (ngramFrequencies s)))"
  by (simp add: trackNgram_def Let_def keys_mapSet)

lemma keys_fold_trackNgram:
  "fst ` set (ngramFrequencies (fold (\<lambda>(n, g). trackNgram n g) xs s))
     \<subseteq> fst ` set (ngramFrequencies s) \<union> {g. \<exists>n. (n, g) \<in> set xs \<and> \<not> isPhraseLowQuality s g}"
proof (induction xs arbitrary: s)
  case Nil
  then show ?case by simp
next
  case (Cons x xs)
  obtain n g where x: "x = (n, g)" by (cases x)
  have c: "isPhraseLowQuality (trackNgram n g s) = isPhraseLowQuality s"
    by (intro ext isPhraseLowQuality_cong) (simp_all add: trackNgram_frame)
  from Cons.IH [of "trackNgram n g s"] x show ?case
    by (auto simp: c keys_trackNgram split: if_splits)
qed

lemma keys_pruneEntries:
  "k \<in> fst ` set (fst (pruneEntries st es c)) \<Longrightarrow> k \<in> fst ` set es"
proof (induction es arbitrary: c)
  case Nil
  then show ?case by simp
next
  case (Cons e es)
  obtain g d where e: "e = (g, d)" by (cases e)
  from Cons.prems e have "k = g \<or> (\<exists>c'. k \<in> fst ` set (fst (pruneEntries st es c')))"
    by (auto split: if_splits)
  with Cons.IH e show ?case by auto
qed

lemma keys_pruneOldNgrams:
  "fst ` set (ngramFrequencies (pruneOldNgrams s)) \<subseteq> fst ` set (ngramFrequencies s)"
proof
  fix k assume "k \<in> fst ` set (ngramFrequencies (pruneOldNgrams s))"
  then show "k \<in> fst ` set (ngramFrequencies s)"
    using keys_pruneEntries [of k s "ngramFrequencies s" "slopCandidates s"]
    by (simp add: pruneOldNgrams_def)
qed

lemma keys_countMessage:
  "fst ` set (ngramFrequencies (countMessage s)) \<subseteq> fst ` set (ngramFrequencies s)"
  using keys_pruneOldNgrams [of "s\<lparr>totalMessagesProcessed := Suc (totalMessagesProcessed s)\<rparr>"]
  by (simp add: countMessage_def)

lemma keys_analyzeMessage:
  "fst ` set (ngramFrequencies (analyzeMessage st text))
     \<subseteq> fst ` set (ngramFrequencies st)
        \<union> {g. \<exists>n t. text = Some t \<and> (n, g) \<in> set (textNgrams st (stripMarkup t))
                   \<and> \<not> isPhraseLowQuality st g}"
proof (cases "text")
  case None
  then show ?thesis by (simp add: analyzeMessage_def)
next
  case (Some t)
  show ?thesis
  proof (cases "t = [] \<or> \<not> enabled st \<or> trim (stripMarkup t) = []")
    case True
    with Some show ?thesis by (auto simp: analyzeMessage_def)
  next
    case False
    with Some have "analyzeMessage st text
        = countMessage (fold (\<lambda>(n, g). trackNgram n g) (textNgrams st (stripMarkup t)) st)"
      by (simp add: analyzeMessage_def trackText_fold)
    with keys_countMessage [of "fold (\<lambda>(n, g). trackNgram n g) (textNgrams st (stripMarkup t)) st"]
      keys_fold_trackNgram [of "textNgrams st (stripMarkup t)" st] Some
    show ?thesis by auto
  qed
qed


lemma toLowerCase_joinWith:
  "toLowerCase (joinWith '' '' ws) = joinWith '' '' (map toLowerCase ws)"
proof (induction ws)
  case Nil
  then show ?case by (simp add: toLowerCase_def)
next
  case (Cons w ws)
  have sp: "toLowerCaseChar CHR '' '' = CHR '' ''"
    by (simp add: toLowerCaseChar_def code_def)
  show ?case
  proof (cases ws)
    case Nil
    then show ?thesis by simp
  next
    case (Cons v vs)
    with Cons.IH sp show ?thesis by (simp add: toLowerCase_def)
  qed
qed

lemma phrase_words:
  assumes "ws \<noteq> []" "\<forall>w\<in>set ws. CHR '' '' \<notin> set w \<and> toLowerCase w = w"
  shows "splitOn CHR '' '' (toLowerCase (joinWith '' '' ws)) = ws"
proof -
  from assms(2) have "map toLowerCase ws = ws" by (simp add: map_idI)
  then have "toLowerCase (joinWith '' '' ws) = joinWith '' '' ws"
    by (simp add: toLowerCase_joinWith)
  with assms show ?thesis by (simp add: splitOn_joinWith)
qed

lemma stopword_phrase_low:
  assumes "ws \<noteq> []" "\<forall>w\<in>set ws. CHR '' '' \<notin> set w \<and> toLowerCase w = w \<and> w \<in> whitelist st"
  shows "isPhraseLowQuality st (joinWith '' '' ws)"
proof -
  from assms have "splitOn CHR '' '' (toLowerCase (joinWith '' '' ws)) = ws"
    by (intro phrase_words) auto
  with assms(2) show ?thesis by (simp add: isPhraseLowQuality_def)
qed

lemma tracked_phrase_tokens:
  assumes "(n, g) \<in> set (textNgrams st cleanText)" "\<not> isPhraseLowQuality st g"
    "0 < ngramMin (settings st)"
  shows "\<exists>ws. g = joinWith '' '' ws \<and> ngramMin (settings st) \<le> length ws
              \<and> (\<forall>w\<in>set ws. CHR '' '' \<notin> set w) \<and> (\<exists>w\<in>set ws. w \<notin> whitelist st)"
proof -
  from textNgrams_windows [OF assms(1)] obtain ws where
    n: "ngramMin (settings st) \<le> n" and g: "g = joinWith '' '' ws" and l: "length ws = n"
    and w: "\<forall>w\<in>set ws. w \<noteq> [] \<and> CHR '' '' \<notin> set w \<and> toLowerCase w = w"
    by blast
  from n l assms(3) have ne: "ws \<noteq> []" by auto
  from w have "\<forall>w\<in>set ws. CHR '' '' \<notin> set w \<and> toLowerCase w = w" by blast
  from phrase_words [OF ne this] g
  have "splitOn CHR '' '' (toLowerCase g) = ws" by simp
  with assms(2) have "\<exists>w\<in>set ws. w \<notin> whitelist st"
    by (auto simp: isPhraseLowQuality_def split: if_splits)
  with g n l w show ?thesis by blast
qed

text \<open>
  C9. An n-gram whose tokens are all stop words is never added to the table: a phrase that
  \<open>isPhraseLowQuality\<close> rejects and that the table does not hold is not in the table
  after any text is observed, and a phrase made of one or more tokens (lower-case, without
  a space, as the tokenizer makes them) that are all in the stop-word set is rejected, for
  every window size. With a positive ngramMin the table keeps, over any observed text, the
  property that every key is made of at least ngramMin tokens, one of them not a stop word.
\<close>

theorem stop_word_ngrams_never_tracked:
  "(ngram \<notin> fst ` set (ngramFrequencies st) \<and> isPhraseLowQuality st ngram \<longrightarrow>
      ngram \<notin> fst ` set (ngramFrequencies (analyzeMessage st text)))
   \<and> (ws \<noteq> [] \<and> (\<forall>w\<in>set ws. CHR '' '' \<notin> set w \<and> toLowerCase w = w \<and> w \<in> whitelist st) \<longrightarrow>
      isPhraseLowQuality st (joinWith '' '' ws))
   \<and> (0 < ngramMin (settings st)
       \<and> (\<forall>k\<in>fst ` set (ngramFrequencies st).
              \<exists>ts. k = joinWith '' '' ts \<and> ngramMin (settings st) \<le> length ts
                 \<and> (\<forall>w\<in>set ts. CHR '' '' \<notin> set w) \<and> (\<exists>w\<in>set ts. w \<notin> whitelist st)) \<longrightarrow>
       (\<forall>k\<in>fst ` set (ngramFrequencies (analyzeMessage st text)).
              \<exists>ts. k = joinWith '' '' ts \<and> ngramMin (settings st) \<le> length ts
                 \<and> (\<forall>w\<in>set ts. CHR '' '' \<notin> set w) \<and> (\<exists>w\<in>set ts. w \<notin> whitelist st)))"
proof (intro conjI impI)
  assume "ngram \<notin> fst ` set (ngramFrequencies st) \<and> isPhraseLowQuality st ngram"
  with keys_analyzeMessage [of st "text"]
  show "ngram \<notin> fst ` set (ngramFrequencies (analyzeMessage st text))"
    by auto
next
  assume "ws \<noteq> [] \<and> (\<forall>w\<in>set ws. CHR '' '' \<notin> set w \<and> toLowerCase w = w \<and> w \<in> whitelist st)"
  then show "isPhraseLowQuality st (joinWith '' '' ws)"
    by (intro stopword_phrase_low) auto
next
  assume a: "0 < ngramMin (settings st)
       \<and> (\<forall>k\<in>fst ` set (ngramFrequencies st).
              \<exists>ts. k = joinWith '' '' ts \<and> ngramMin (settings st) \<le> length ts
                 \<and> (\<forall>w\<in>set ts. CHR '' '' \<notin> set w) \<and> (\<exists>w\<in>set ts. w \<notin> whitelist st))"
  show "\<forall>k\<in>fst ` set (ngramFrequencies (analyzeMessage st text)).
              \<exists>ts. k = joinWith '' '' ts \<and> ngramMin (settings st) \<le> length ts
                 \<and> (\<forall>w\<in>set ts. CHR '' '' \<notin> set w) \<and> (\<exists>w\<in>set ts. w \<notin> whitelist st)"
  proof
    fix k assume "k \<in> fst ` set (ngramFrequencies (analyzeMessage st text))"
    with keys_analyzeMessage [of st "text"]
    have "k \<in> fst ` set (ngramFrequencies st)
        \<union> {g. \<exists>n t. text = Some t \<and> (n, g) \<in> set (textNgrams st (stripMarkup t))
                   \<and> \<not> isPhraseLowQuality st g}"
      by (rule subsetD)
    then consider "k \<in> fst ` set (ngramFrequencies st)"
      | n t where "(n, k) \<in> set (textNgrams st (stripMarkup t))" "\<not> isPhraseLowQuality st k"
      by blast
    then show "\<exists>ts. k = joinWith '' '' ts \<and> ngramMin (settings st) \<le> length ts
                 \<and> (\<forall>w\<in>set ts. CHR '' '' \<notin> set w) \<and> (\<exists>w\<in>set ts. w \<notin> whitelist st)"
    proof cases
      case 1
      with a show ?thesis by blast
    next
      case 2
      with a tracked_phrase_tokens [of n k st "stripMarkup t"] show ?thesis by blast
    qed
  qed
qed

text \<open>
  C1. A text that is observed is handled by running the loop body \<open>trackNgram\<close> over its
  n-grams in order and then counting the message; every n-gram visited has a window size
  n between ngramMin and ngramMax and is made of n tokens. For a surviving n-gram (one
  that \<open>isPhraseLowQuality\<close> lets pass) of one or more tokens, the loop body leaves its
  record with the count one higher, the score increased by
  1.0 + (n - ngramMin) * 0.2 + (number of its tokens outside the stop-word set) * 0.5, and
  lastSeen at the current message counter (a record that did not exist counts from 0);
  the records of the other n-grams and the counter stay as they are. The sums and products
  are those of binary64 numbers, each rounded, in the order in which the program computes
  them: in the example a third observation takes the score from 5.4 to 8.100000000000001,
  which is above the sum of the rationals.
\<close>

theorem analyzeMessage_updates_records:
  "(enabled st \<and> t \<noteq> [] \<and> trim (stripMarkup t) \<noteq> [] \<longrightarrow>
      analyzeMessage st (Some t)
        = countMessage (fold (\<lambda>(n, ngram). trackNgram n ngram) (textNgrams st (stripMarkup t)) st)
      \<and> (\<forall>(n, ngram)\<in>set (textNgrams st (stripMarkup t)).
            ngramMin (settings st) \<le> n \<and> n \<le> ngramMax (settings st)
            \<and> (\<exists>ts. ngram = joinWith '' '' ts \<and> length ts = n
                   \<and> (\<forall>w\<in>set ts. CHR '' '' \<notin> set w))))
   \<and> (\<not> isPhraseLowQuality s ngram \<and> ngram = joinWith '' '' ws \<and> ws \<noteq> []
        \<and> (\<forall>w\<in>set ws. CHR '' '' \<notin> set w) \<longrightarrow>
        map_of (ngramFrequencies (trackNgram n ngram s)) ngram
          = Some \<lparr>count = (case map_of (ngramFrequencies s) ngram of None \<Rightarrow> 0 | Some d \<Rightarrow> count d) + 1,
                  score = fadd (case map_of (ngramFrequencies s) ngram of None \<Rightarrow> 0 | Some d \<Rightarrow> score d)
                            (fadd (fadd 1 (fmul (fsub (of_nat n) (of_nat (ngramMin (settings s))))
                                             (round64 (2 / 10))))
                               (fmul (of_nat (length (filter (\<lambda>w. w \<notin> whitelist s) ws)))
                                  (round64 (5 / 10)))),
                  lastSeen = totalMessagesProcessed s\<rparr>
        \<and> (\<forall>other. other \<noteq> ngram \<longrightarrow>
              map_of (ngramFrequencies (trackNgram n ngram s)) other
                = map_of (ngramFrequencies s) other)
        \<and> totalMessagesProcessed (trackNgram n ngram s) = totalMessagesProcessed s)"
proof (intro conjI impI)
  assume "enabled st \<and> t \<noteq> [] \<and> trim (stripMarkup t) \<noteq> []"
  then show "analyzeMessage st (Some t)
        = countMessage (fold (\<lambda>(n, ngram). trackNgram n ngram) (textNgrams st (stripMarkup t)) st)"
    by (simp add: analyzeMessage_def trackText_fold)
next
  show "\<forall>(n, ngram)\<in>set (textNgrams st (stripMarkup t)).
            ngramMin (settings st) \<le> n \<and> n \<le> ngramMax (settings st)
            \<and> (\<exists>ts. ngram = joinWith '' '' ts \<and> length ts = n
                   \<and> (\<forall>w\<in>set ts. CHR '' '' \<notin> set w))"
    using textNgrams_windows [of _ _ st "stripMarkup t"] by fast
next
  assume a: "\<not> isPhraseLowQuality s ngram \<and> ngram = joinWith '' '' ws \<and> ws \<noteq> []
        \<and> (\<forall>w\<in>set ws. CHR '' '' \<notin> set w)"
  then have u: "uncommonWordCount s ngram = length (filter (\<lambda>w. w \<notin> whitelist s) ws)"
    by (simp add: uncommonWordCount_tokens)
  from a have m: "map_of (ngramFrequencies (trackNgram n ngram s)) =
     (map_of (ngramFrequencies s))
       (ngram \<mapsto> \<lparr>count = count (currentData s ngram) + 1,
                  score = fadd (score (currentData s ngram)) (scoreIncrement s n ngram),
                  lastSeen = totalMessagesProcessed s\<rparr>)"
    using trackNgram_record [of s ngram n] by blast
  show "map_of (ngramFrequencies (trackNgram n ngram s)) ngram
          = Some \<lparr>count = (case map_of (ngramFrequencies s) ngram of None \<Rightarrow> 0 | Some d \<Rightarrow> count d) + 1,
                  score = fadd (case map_of (ngramFrequencies s) ngram of None \<Rightarrow> 0 | Some d \<Rightarrow> score d)
                            (fadd (fadd 1 (fmul (fsub (of_nat n) (of_nat (ngramMin (settings s))))
                                             (round64 (2 / 10))))
                               (fmul (of_nat (length (filter (\<lambda>w. w \<notin> whitelist s) ws)))
                                  (round64 (5 / 10)))),
                  lastSeen = totalMessagesProcessed s\<rparr>"
    by (simp add: m u scoreIncrement_def currentData_def split: option.splits)
  show "\<forall>other. other \<noteq> ngram \<longrightarrow>
              map_of (ngramFrequencies (trackNgram n ngram s)) other
                = map_of (ngramFrequencies s) other"
    by (simp add: m)
  show "totalMessagesProcessed (trackNgram n ngram s) = totalMessagesProcessed s"
    by (simp add: trackNgram_frame)
qed


lemma analyzeMessage_frame:
  "enabled (analyzeMessage st text) = enabled st"
  "whitelist (analyzeMessage st text) = whitelist st"
  by (simp_all add: analyzeMessage_def countMessage_def pruneOldNgrams_def trackText_frame
        split: option.splits)

lemma textNgrams_cong:
  assumes "settings st' = settings st"
  shows "textNgrams st' cleanText = textNgrams st cleanText"
proof -
  have "sentenceNgrams st' = sentenceNgrams st"
    by (rule ext) (rule sentenceNgrams_cong [OF assms])
  then show ?thesis by (simp add: textNgrams_def)
qed

lemma dragonWatcher_frame:
  "settings dragonWatcher = settings exampleWatcher"
  "enabled dragonWatcher = enabled exampleWatcher"
  "whitelist dragonWatcher = whitelist exampleWatcher"
  by (simp_all add: dragonWatcher_def analyzeMessage_settings analyzeMessage_frame)

lemma dragonWatcher_table:
  "ngramFrequencies dragonWatcher =
     [(''the dragon roared'', \<lparr>count = 2, score = 4, lastSeen = 1\<rparr>),
      (''dragon roared loudly'', \<lparr>count = 2, score = 5, lastSeen = 1\<rparr>),
      (''the dragon roared loudly'',
         \<lparr>count = 2, score = 3039929748475085 / 562949953421312, lastSeen = 1\<rparr>)]"
  by code_simp

lemma dragonWatcher_counter: "totalMessagesProcessed dragonWatcher = 2"
proof -
  have s: "stripMarkup ''The dragon roared loudly.'' = ''The dragon roared loudly.''"
    by code_simp
  have t: "trim ''The dragon roared loudly.'' \<noteq> []"
    by code_simp
  have "totalMessagesProcessed (analyzeMessage st (Some ''The dragon roared loudly.''))
          = Suc (totalMessagesProcessed st)" if "enabled st" for st
    using that t by (simp add: analyzeMessage_def s countMessage_counter trackText_frame)
  then show ?thesis
    by (simp add: dragonWatcher_def analyzeMessage_frame exampleWatcher_def)
qed

theorem analyzeMessage_updates_records_witness:
  "enabled dragonWatcher
   \<and> trim (stripMarkup ''The dragon roared loudly.'') \<noteq> []
   \<and> textNgrams dragonWatcher (stripMarkup ''The dragon roared loudly.'')
       = [(3, ''the dragon roared''), (3, ''dragon roared loudly''),
          (4, ''the dragon roared loudly'')]
   \<and> analyzeMessage dragonWatcher (Some ''The dragon roared loudly.'')
       = countMessage (fold (\<lambda>(n, ngram). trackNgram n ngram)
                         [(3, ''the dragon roared''), (3, ''dragon roared loudly''),
                          (4, ''the dragon roared loudly'')] dragonWatcher)
   \<and> \<not> isPhraseLowQuality dragonWatcher ''the dragon roared loudly''
   \<and> ''the dragon roared loudly'' = joinWith '' '' [''the'', ''dragon'', ''roared'', ''loudly'']
   \<and> map_of (ngramFrequencies dragonWatcher) ''the dragon roared loudly''
       = Some \<lparr>count = 2, score = 3039929748475085 / 562949953421312, lastSeen = 1\<rparr>
   \<and> map_of (ngramFrequencies (trackNgram 4 ''the dragon roared loudly'' dragonWatcher))
         ''the dragon roared loudly''
       = Some \<lparr>count = 3, score = 1139973655678157 / 140737488355328, lastSeen = 2\<rparr>
   \<and> (3039929748475085 / 562949953421312 + (1 + 2 / 10 + 3 * (5 / 10)) :: rat)
       < 1139973655678157 / 140737488355328"
proof -
  let ?t = "''The dragon roared loudly.''" and ?g = "''the dragon roared loudly''"
  let ?ws = "[''the'', ''dragon'', ''roared'', ''loudly'']"
  let ?ns = "[(3::nat, ''the dragon roared''), (3, ''dragon roared loudly''),
              (4, ''the dragon roared loudly'')]"
  note T = analyzeMessage_updates_records [of dragonWatcher ?t dragonWatcher ?g ?ws 4]
  have e: "enabled dragonWatcher"
    by (simp add: dragonWatcher_frame exampleWatcher_def)
  have s: "stripMarkup ?t = ?t"
    by code_simp
  have tr: "trim ?t \<noteq> []"
    by code_simp
  have "textNgrams exampleWatcher ?t = ?ns"
    by code_simp
  then have tn: "textNgrams dragonWatcher ?t = ?ns"
    by (simp only: textNgrams_cong [OF dragonWatcher_frame(1)])
  have "\<not> isPhraseLowQuality exampleWatcher ?g"
    by code_simp
  then have lq: "\<not> isPhraseLowQuality dragonWatcher ?g"
    by (simp add: isPhraseLowQuality_cong [OF dragonWatcher_frame(1) dragonWatcher_frame(3)])
  have j: "?g = joinWith '' '' ?ws"
    by simp
  have old: "map_of (ngramFrequencies dragonWatcher) ?g
      = Some \<lparr>count = 2, score = 3039929748475085 / 562949953421312, lastSeen = 1\<rparr>"
    by (simp add: dragonWatcher_table)
  have ng: "ngramMin (settings dragonWatcher) = 3"
    by (simp add: dragonWatcher_frame exampleWatcher_def)
  have fl: "length (filter (\<lambda>w. w \<notin> whitelist dragonWatcher) ?ws) = 3"
    by (simp add: dragonWatcher_frame exampleWatcher_def)
  have ev: "fadd (3039929748475085 / 562949953421312)
              (fadd (fadd 1 (fmul (fsub (of_nat 4) (of_nat 3)) (round64 (2 / 10))))
                 (fmul (of_nat 3) (round64 (5 / 10))))
            = 1139973655678157 / 140737488355328"
    by code_simp
  have p1: "enabled dragonWatcher \<and> ?t \<noteq> [] \<and> trim (stripMarkup ?t) \<noteq> []"
    unfolding s using e tr by simp
  have a: "analyzeMessage dragonWatcher (Some ?t)
       = countMessage (fold (\<lambda>(n, ngram). trackNgram n ngram) ?ns dragonWatcher)"
    using T [THEN conjunct1, THEN mp, OF p1, THEN conjunct1] unfolding s tn .
  have p2: "\<not> isPhraseLowQuality dragonWatcher ?g \<and> ?g = joinWith '' '' ?ws \<and> ?ws \<noteq> []
            \<and> (\<forall>w\<in>set ?ws. CHR '' '' \<notin> set w)"
    using lq by simp
  have r: "map_of (ngramFrequencies (trackNgram 4 ?g dragonWatcher)) ?g
      = Some \<lparr>count = 3, score = 1139973655678157 / 140737488355328, lastSeen = 2\<rparr>"
    using T [THEN conjunct2, THEN mp, OF p2, THEN conjunct1]
    by (simp only: old ng fl option.case ngramData.simps dragonWatcher_counter ev) simp
  have s2: "trim (stripMarkup ?t) \<noteq> []"
    unfolding s by (rule tr)
  have tn2: "textNgrams dragonWatcher (stripMarkup ?t) = ?ns"
    unfolding s by (rule tn)
  have c: "(3039929748475085 / 562949953421312 + (1 + 2 / 10 + 3 * (5 / 10)) :: rat)
       < 1139973655678157 / 140737488355328"
    by simp
  from e s2 tn2 a lq j old r c show ?thesis
    by blast
qed

theorem stop_word_ngrams_never_tracked_witness:
  "''it was the'' \<notin> fst ` set (ngramFrequencies exampleWatcher)
   \<and> isPhraseLowQuality exampleWatcher ''it was the''
   \<and> ''it was the'' \<notin> fst ` set (ngramFrequencies
          (analyzeMessage exampleWatcher (Some ''It was the dragon.'')))
   \<and> map fst (ngramFrequencies (analyzeMessage exampleWatcher (Some ''It was the dragon.'')))
        = [''was the dragon'', ''it was the dragon'']
   \<and> ''it was the'' = joinWith '' '' [''it'', ''was'', ''the'']
   \<and> 0 < ngramMin (settings exampleWatcher)"
proof -
  note T = stop_word_ngrams_never_tracked [of "''it was the''" exampleWatcher
      "Some ''It was the dragon.''" "[''it'', ''was'', ''the'']"]
  have k: "''it was the'' \<notin> fst ` set (ngramFrequencies exampleWatcher)"
    by (simp add: exampleWatcher_def)
  have lq: "isPhraseLowQuality exampleWatcher ''it was the''"
    by code_simp
  have m: "map fst (ngramFrequencies (analyzeMessage exampleWatcher (Some ''It was the dragon.'')))
        = [''was the dragon'', ''it was the dragon'']"
    by code_simp
  have n: "0 < ngramMin (settings exampleWatcher)"
    by (simp add: exampleWatcher_def)
  from T [THEN conjunct1] k lq
  have "''it was the'' \<notin> fst ` set (ngramFrequencies
          (analyzeMessage exampleWatcher (Some ''It was the dragon.'')))"
    by blast
  with k lq m n show ?thesis by simp
qed

subsection \<open>The keys of the table stay distinct\<close>

text \<open>The table is a \<open>Map\<close>: no key occurs twice in it, from \<open>reset\<close> on.\<close>

lemma distinct_pruneEntries:
  "distinct (map fst es) \<Longrightarrow> distinct (map fst (fst (pruneEntries st es c)))"
proof (induction es arbitrary: c)
  case Nil
  then show ?case by simp
next
  case (Cons e es)
  obtain g d where e: "e = (g, d)" by (cases e)
  from Cons.prems e have nin: "g \<notin> fst ` set es" and dis: "distinct (map fst es)" by auto
  from nin keys_pruneEntries have "g \<notin> fst ` set (fst (pruneEntries st es c'))" for c'
    by blast
  with Cons.IH [OF dis] e show ?case by simp
qed

lemma distinct_fold_trackNgram:
  "distinct (map fst (ngramFrequencies s)) \<Longrightarrow>
   distinct (map fst (ngramFrequencies (fold (\<lambda>(n, g). trackNgram n g) xs s)))"
proof (induction xs arbitrary: s)
  case Nil
  then show ?case by simp
next
  case (Cons x xs)
  obtain n g where x: "x = (n, g)" by (cases x)
  from Cons.prems have "distinct (map fst (ngramFrequencies (trackNgram n g s)))"
    by (simp add: trackNgram_def Let_def distinct_mapSet)
  from Cons.IH [OF this] x show ?case by simp
qed

lemma distinct_analyzeMessage:
  assumes "distinct (map fst (ngramFrequencies st))"
  shows "distinct (map fst (ngramFrequencies (analyzeMessage st text)))"
proof -
  have "distinct (map fst (ngramFrequencies (countMessage s)))"
    if "distinct (map fst (ngramFrequencies s))" for s
    using that by (simp add: countMessage_def pruneOldNgrams_def distinct_pruneEntries)
  with assms distinct_fold_trackNgram show ?thesis
    by (simp add: analyzeMessage_def trackText_fold split: option.splits)
qed

lemma distinct_reset: "distinct (map fst (ngramFrequencies (reset st)))"
  by (simp add: reset_def)

section \<open>Properties of the Static Fixer\<close>

subsection \<open>Randomised replacement\<close>

lemma splitOn_nonempty: "splitOn sep s \<noteq> []"
  by (induction s) (auto split: list.splits)

lemma draw_index:
  fixes r :: rat
  assumes "0 \<le> r" "r < 1" "0 < n"
  shows "0 \<le> \<lfloor>r * of_nat n\<rfloor> \<and> nat \<lfloor>r * of_nat n\<rfloor> < n"
proof -
  have a: "0 \<le> r * of_nat n" using assms by simp
  have "r * of_nat n < of_nat n" using assms by simp
  then have "\<lfloor>r * of_nat n\<rfloor> < int n"
    by (simp add: floor_less_iff)
  moreover from a have "0 \<le> \<lfloor>r * of_nat n\<rfloor>" by simp
  ultimately show ?thesis by linarith
qed

lemma randomReplacements_ok:
  assumes "\<forall>i. 0 \<le> rnd i \<and> rnd i < 1" "options \<noteq> []"
  shows "\<exists>reps. randomReplacements rnd options m s mts k = (Some reps, k + length mts)
           \<and> length reps = length mts
           \<and> (\<forall>j<length mts. \<exists>alt\<in>set options.
                  reps ! j = substituteGroups m s (mts ! j) (trim alt))"
proof (induction mts arbitrary: k)
  case Nil
  then show ?case by simp
next
  case (Cons mt mts)
  from assms have idx: "0 \<le> \<lfloor>rnd k * of_nat (length options)\<rfloor>
                        \<and> nat \<lfloor>rnd k * of_nat (length options)\<rfloor> < length options"
    by (intro draw_index) auto
  from Cons.IH [of "Suc k"] obtain reps where
    r: "randomReplacements rnd options m s mts (Suc k) = (Some reps, Suc k + length mts)"
    and l: "length reps = length mts"
    and a: "\<forall>j<length mts. \<exists>alt\<in>set options. reps ! j = substituteGroups m s (mts ! j) (trim alt)"
    by blast
  let ?rep = "substituteGroups m s mt (trim (options ! nat \<lfloor>rnd k * of_nat (length options)\<rfloor>))"
  have "randomReplacements rnd options m s (mt # mts) k = (Some (?rep # reps), k + length (mt # mts))"
    using idx r by simp
  moreover have "length (?rep # reps) = length (mt # mts)" using l by simp
  moreover have "\<forall>j<length (mt # mts). \<exists>alt\<in>set options.
                  (?rep # reps) ! j = substituteGroups m s ((mt # mts) ! j) (trim alt)"
  proof (intro allI impI)
    fix j assume "j < length (mt # mts)"
    show "\<exists>alt\<in>set options. (?rep # reps) ! j = substituteGroups m s ((mt # mts) ! j) (trim alt)"
    proof (cases j)
      case 0
      with idx show ?thesis by (auto intro!: bexI [of _ "options ! nat \<lfloor>rnd k * of_nat (length options)\<rfloor>"])
    next
      case (Suc j')
      with \<open>j < length (mt # mts)\<close> a show ?thesis by simp
    qed
  qed
  ultimately show ?case by blast
qed

lemma heart_options:
  "search False randomSyntax (replaceString heartRule) 0
     = Some (0, 42, [(1, ''pulse quickened,chest tightened'')])"
  by code_simp

lemma heart_scan:
  "scan True heartPattern ''His heart pounded.'' 0 = [(4, 17, [])]"
  by code_simp

lemma heart_sub:
  "substituteGroups 0 ''His heart pounded.'' (4, 17, []) (trim ''pulse quickened'') = ''pulse quickened''"
  "substituteGroups 0 ''His heart pounded.'' (4, 17, []) (trim ''chest tightened'') = ''chest tightened''"
  by code_simp+

lemma heart_cap:
  "fixCapitalization ''His pulse quickened.'' = ''His pulse quickened.''"
  "fixCapitalization ''His chest tightened.'' = ''His chest tightened.''"
  by code_simp+

lemma heart_incl: "includesStr (replaceString heartRule) ''{{random:''"
  by code_simp


lemma backreference_none:
  "CHR ''$'' \<notin> set a \<Longrightarrow> exec False backreference a i = None"
proof -
  assume "CHR ''$'' \<notin> set a"
  then have "i < length a \<Longrightarrow> a ! i \<noteq> CHR ''$''"
    by (metis nth_mem)
  then show ?thesis
    by (auto simp: exec_def backreference_def chrR_def classHas_def)
qed

lemma scan_backreference_none:
  "CHR ''$'' \<notin> set a \<Longrightarrow> scan False backreference a i = []"
proof (induction "False" backreference a i rule: scan.induct)
  case (1 s i)
  then show ?case
    by (subst scan.simps) (simp add: backreference_none)
qed

lemma substituteGroups_plain:
  "CHR ''$'' \<notin> set a \<Longrightarrow> substituteGroups m s mt a = a"
  by (simp add: substituteGroups_def replaceAllFn_def scan_backreference_none)

lemma set_trim: "set (trim a) \<subseteq> set a"
proof -
  have "set (dropWhile isSpace (rev (dropWhile isSpace a))) \<subseteq> set (rev (dropWhile isSpace a))"
    by (rule set_dropWhileD [THEN subsetI])
  also have "\<dots> \<subseteq> set a"
    using set_dropWhileD [of _ isSpace a] by auto
  finally show ?thesis by (simp add: trim_def)
qed

lemma applyRule_random:
  assumes "\<forall>i. 0 \<le> rnd i \<and> rnd i < 1" "findRegex rule = Some regex"
    "includesStr (replaceString rule) ''{{random:''"
    "search False randomSyntax (replaceString rule) 0 = Some om"
    "captureText (snd (snd om)) 1 \<noteq> []"
  shows "\<exists>reps. applyRule rnd rule (text, k)
                  = (splice text 0 (zip (scan True regex text 0) reps),
                     k + length (scan True regex text 0))
           \<and> length reps = length (scan True regex text 0)
           \<and> (\<forall>j<length reps. \<exists>alt\<in>set (splitOn CHR '','' (captureText (snd (snd om)) 1)).
                  reps ! j = substituteGroups (length (groupsOf regex)) text
                               (scan True regex text 0 ! j) (trim alt)
                  \<and> (CHR ''$'' \<notin> set alt \<longrightarrow> reps ! j = trim alt))"
proof -
  let ?opts = "splitOn CHR '','' (captureText (snd (snd om)) 1)"
  let ?mts = "scan True regex text 0"
  have ne: "?opts \<noteq> []" by (rule splitOn_nonempty)
  from randomReplacements_ok [OF assms(1) ne]
  obtain reps where
    r: "randomReplacements rnd ?opts (length (groupsOf regex)) text ?mts k = (Some reps, k + length ?mts)"
    and l: "length reps = length ?mts"
    and a: "\<forall>j<length ?mts. \<exists>alt\<in>set ?opts.
              reps ! j = substituteGroups (length (groupsOf regex)) text (?mts ! j) (trim alt)"
    by blast
  have "applyRule rnd rule (text, k) = (splice text 0 (zip ?mts reps), k + length ?mts)"
    using assms r by (simp add: applyRule_def)
  moreover have "\<forall>j<length reps. \<exists>alt\<in>set ?opts.
                  reps ! j = substituteGroups (length (groupsOf regex)) text (?mts ! j) (trim alt)
                  \<and> (CHR ''$'' \<notin> set alt \<longrightarrow> reps ! j = trim alt)"
  proof (intro allI impI)
    fix j assume "j < length reps"
    with a l obtain alt where alt: "alt \<in> set ?opts"
      "reps ! j = substituteGroups (length (groupsOf regex)) text (?mts ! j) (trim alt)"
      by auto
    have "CHR ''$'' \<notin> set alt \<longrightarrow> reps ! j = trim alt"
    proof
      assume "CHR ''$'' \<notin> set alt"
      with set_trim [of alt] have "CHR ''$'' \<notin> set (trim alt)" by blast
      with alt(2) show "reps ! j = trim alt" by (simp add: substituteGroups_plain)
    qed
    with alt show "\<exists>alt\<in>set ?opts.
                  reps ! j = substituteGroups (length (groupsOf regex)) text (?mts ! j) (trim alt)
                  \<and> (CHR ''$'' \<notin> set alt \<longrightarrow> reps ! j = trim alt)"
      by blast
  qed
  ultimately show ?thesis using l by blast
qed

lemma heart_split:
  "splitOn CHR '','' ''pulse quickened,chest tightened'' = [''pulse quickened'', ''chest tightened'']"
  by code_simp

lemma heart_trim:
  "trim ''pulse quickened'' = ''pulse quickened''" "trim ''chest tightened'' = ''chest tightened''"
  by code_simp+

lemma process_heart:
  assumes "\<forall>i. 0 \<le> rnd i \<and> rnd i < 1"
  shows "fst (process heartFixer rnd k ''His heart pounded.'') = ''His pulse quickened.''
       \<or> fst (process heartFixer rnd k ''His heart pounded.'') = ''His chest tightened.''"
proof -
  let ?text = "''His heart pounded.''"
  have fr: "findRegex heartRule = Some heartPattern"
    by (simp add: heartRule_def)
  have c1: "captureText (snd (snd (0::nat, 42::nat, [(1::nat, ''pulse quickened,chest tightened'')]))) 1
              = ''pulse quickened,chest tightened''"
    by (simp add: captureText_def)
  have c2: "captureText (snd (snd (0::nat, 42::nat, [(1::nat, ''pulse quickened,chest tightened'')]))) 1 \<noteq> []"
    by (simp add: captureText_def)
  from applyRule_random [OF assms fr heart_incl heart_options c2, of ?text k]
  obtain reps where
    r: "applyRule rnd heartRule (?text, k)
          = (splice ?text 0 (zip [(4, 17, [])] reps), k + 1)"
    and l: "length reps = 1"
    and a: "\<forall>j<length reps. \<exists>alt\<in>set [''pulse quickened'', ''chest tightened''].
              reps ! j = substituteGroups (length (groupsOf heartPattern)) ?text
                           ([(4, 17, [])] ! j) (trim alt)
              \<and> (CHR ''$'' \<notin> set alt \<longrightarrow> reps ! j = trim alt)"
    unfolding heart_scan c1 heart_split by auto
  from l obtain rep where reps: "reps = [rep]"
    by (cases reps) auto
  from a reps have "rep = ''pulse quickened'' \<or> rep = ''chest tightened''"
    by (auto simp: heart_trim)
  moreover have "fst (applyReplacements heartFixer rnd k ?text) = ''His '' @ rep @ ''.''"
    using r reps by (simp add: applyReplacements_def heartFixer_def heartRule_def substring_def)
  ultimately show ?thesis
    by (auto simp: process_def heart_cap)
qed

text \<open>
  C5. Whatever the random draws (each in [0, 1), as \<open>Math.random\<close> gives them), the rule
  \<open>\bheart pounded\b\<close> with the alternatives "pulse quickened" and "chest tightened" turns
  "His heart pounded." into "His pulse quickened." or "His chest tightened.": the
  phrase is gone and the capital letter stays. In general, for a rule whose replacement parses
  as \<open>{{random:...}}\<close>, the text is rebuilt with one replacement for each match of the
  pattern, one draw each, and each replacement is one of the listed alternatives, trimmed,
  with its \<open>$n\<close> references filled from that match; an alternative without \<open>$\<close> is
  spliced in as it is listed.
\<close>

theorem process_uses_listed_alternatives:
  "\<forall>i. 0 \<le> rnd i \<and> rnd i < 1 \<Longrightarrow>
   (fst (process heartFixer rnd k ''His heart pounded.'') = ''His pulse quickened.''
      \<or> fst (process heartFixer rnd k ''His heart pounded.'') = ''His chest tightened.'')
   \<and> (findRegex rule = Some regex \<and> includesStr (replaceString rule) ''{{random:''
        \<and> search False randomSyntax (replaceString rule) 0 = Some om
        \<and> captureText (snd (snd om)) 1 \<noteq> [] \<longrightarrow>
        (\<exists>reps. applyRule rnd rule (text, k)
                  = (splice text 0 (zip (scan True regex text 0) reps),
                     k + length (scan True regex text 0))
           \<and> length reps = length (scan True regex text 0)
           \<and> (\<forall>j<length reps. \<exists>alt\<in>set (splitOn CHR '','' (captureText (snd (snd om)) 1)).
                  reps ! j = substituteGroups (length (groupsOf regex)) text
                               (scan True regex text 0 ! j) (trim alt)
                  \<and> (CHR ''$'' \<notin> set alt \<longrightarrow> reps ! j = trim alt))))"
  using process_heart [of rnd k] applyRule_random [of rnd rule regex om "text" k]
  by blast

theorem process_uses_listed_alternatives_witness:
  "(\<forall>i. (0::rat) \<le> (\<lambda>i::nat. 1 / 2) i \<and> (\<lambda>i::nat. 1 / 2 :: rat) i < 1)
   \<and> fst (process heartFixer (\<lambda>i. 1 / 2) 0 ''His heart pounded.'') = ''His chest tightened.''
   \<and> findRegex heartRule = Some heartPattern
   \<and> includesStr (replaceString heartRule) ''{{random:''
   \<and> search False randomSyntax (replaceString heartRule) 0
        = Some (0, 42, [(1, ''pulse quickened,chest tightened'')])
   \<and> (\<exists>reps. applyRule (\<lambda>i. 1 / 2) heartRule (''His heart pounded.'', 0)
                  = (splice ''His heart pounded.'' 0
                       (zip (scan True heartPattern ''His heart pounded.'' 0) reps),
                     0 + length (scan True heartPattern ''His heart pounded.'' 0))
           \<and> length reps = length (scan True heartPattern ''His heart pounded.'' 0))"
proof -
  have h: "\<forall>i. (0::rat) \<le> (\<lambda>i::nat. 1 / 2) i \<and> (\<lambda>i::nat. 1 / 2 :: rat) i < 1"
    by simp
  note T = process_uses_listed_alternatives [OF h, of 0 heartRule heartPattern
      "(0, 42, [(1, ''pulse quickened,chest tightened'')])" "''His heart pounded.''"]
  have v: "fst (process heartFixer (\<lambda>i. 1 / 2) 0 ''His heart pounded.'') = ''His chest tightened.''"
    by code_simp
  have fr: "findRegex heartRule = Some heartPattern"
    by (simp add: heartRule_def)
  have c: "captureText (snd (snd (0::nat, 42::nat, [(1::nat, ''pulse quickened,chest tightened'')]))) 1 \<noteq> []"
    by (simp add: captureText_def)
  from T fr heart_incl heart_options c
  have "\<exists>reps. applyRule (\<lambda>i. 1 / 2) heartRule (''His heart pounded.'', 0)
                  = (splice ''His heart pounded.'' 0
                       (zip (scan True heartPattern ''His heart pounded.'' 0) reps),
                     0 + length (scan True heartPattern ''His heart pounded.'' 0))
           \<and> length reps = length (scan True heartPattern ''His heart pounded.'' 0)"
    by blast
  with h v fr heart_incl heart_options show ?thesis
    by blast
qed

subsection \<open>Replacements that do not parse\<close>

text \<open>
  C6, as the claim has it, fails: a replacement that contains \<open>{{random:\<close> and does not
  parse is not substituted literally. The rule of the scenario without its closing braces
  leaves "His heart pounded." as it is, where the literal substitution of the raw string
  would give "His {{random:pulse quickened,chest tightened.".
\<close>

theorem applyReplacements_malformed_counterexample:
  "includesStr (replaceString malformedRule) ''{{random:''
   \<and> search False randomSyntax (replaceString malformedRule) 0 = None
   \<and> applyReplacements \<lparr>rules = [malformedRule], fixerEnabled = True\<rparr> (\<lambda>i. 0) 0
        ''His heart pounded.'' = (''His heart pounded.'', 0)
   \<and> replaceAllStr True heartPattern ''His heart pounded.'' (replaceString malformedRule)
        = ''His {{random:pulse quickened,chest tightened.''"
  by code_simp

text \<open>
  C6, amended. A rule whose replacement contains \<open>{{random:\<close> and does not parse as
  \<open>{{random:alt1,alt2,...}}\<close> makes no substitution and does not fail: the text and the
  random source are after the rule as they were before it, and the rules before and after
  it apply as if it were not in the list.
\<close>

theorem applyRule_malformed_skipped:
  "includesStr (replaceString rule) ''{{random:'' \<Longrightarrow>
   search False randomSyntax (replaceString rule) 0 = None \<Longrightarrow>
   applyRule rnd rule tk = tk
   \<and> applyReplacements (fx\<lparr>rules := before @ rule # after\<rparr>) rnd k input
       = applyReplacements (fx\<lparr>rules := before @ after\<rparr>) rnd k input"
proof -
  assume a: "includesStr (replaceString rule) ''{{random:''"
    "search False randomSyntax (replaceString rule) 0 = None"
  then have s: "applyRule rnd rule = (\<lambda>tk. tk)"
    by (auto simp: applyRule_def fun_eq_iff split: option.splits)
  then show ?thesis
    by (simp add: applyReplacements_def)
qed

theorem applyRule_malformed_skipped_witness:
  "includesStr (replaceString malformedRule) ''{{random:''
   \<and> search False randomSyntax (replaceString malformedRule) 0 = None
   \<and> applyRule (\<lambda>i. 0) malformedRule (''His heart pounded.'', 0) = (''His heart pounded.'', 0)
   \<and> applyReplacements (heartFixer\<lparr>rules := [] @ malformedRule # [heartRule]\<rparr>) (\<lambda>i. 0) 0
        ''His heart pounded.''
       = applyReplacements (heartFixer\<lparr>rules := [] @ [heartRule]\<rparr>) (\<lambda>i. 0) 0 ''His heart pounded.''"
proof -
  have i: "includesStr (replaceString malformedRule) ''{{random:''"
    by code_simp
  have n: "search False randomSyntax (replaceString malformedRule) 0 = None"
    by code_simp
  from applyRule_malformed_skipped [OF i n, where rnd = "\<lambda>i. 0"
      and tk = "(''His heart pounded.'', 0)" and fx = heartFixer and before = "[]"
      and after = "[heartRule]" and k = 0 and input = "''His heart pounded.''"] i n
  show ?thesis by blast
qed

subsection \<open>Capitalisation and markup\<close>

text \<open>
  C7. The claim is that every tag of the input is in the output unchanged. The program
  loses tags: of several tags before the first letter, or between the end of a sentence and
  the next letter, only the last one is written back, because the group \<open>(\s*<[^>]*>)*\<close>
  is repeated and a repeated group keeps its last round only. "<b><i>hello" becomes
  "<i>Hello", and in "The end.</i></b> next" the tag \<open></i>\<close> is lost.
\<close>

theorem fixCapitalization_loses_tags:
  "fixCapitalization ''<b><i>hello'' = ''<i>Hello''
   \<and> fixCapitalization ''The end.</i></b> next'' = ''The end.</b> Next''"
  by code_simp


subsection \<open>Capitalisation of a text without markup\<close>
















































end
